theory Spec2Isabelle
  imports Main "HOL-Library.Word"
begin

unbundle bit_operations_syntax

section \<open>Python values used by gcommands.py\<close>

text \<open>
  gcommands.py is Python 2: a \<^verbatim>\<open>str\<close> is a sequence of 8-bit characters, which is
  what \<^typ>\<open>string\<close> is. \<^verbatim>\<open>ord\<close> reads a character as an unbounded integer in
  0..255; \<^verbatim>\<open>chr\<close> raises ValueError outside that range.
\<close>

datatype exn =
    SerialException
  | IndexError
  | TypeError
  | ValueError
  | StructError
  | ZeroDivisionError

datatype 'a outcome = Returned 'a | Raised exn

definition ord :: "char \<Rightarrow> int" where
  "ord c = of_char c"

definition chr :: "int \<Rightarrow> exn + char" where
  "chr i = (if 0 \<le> i \<and> i < 256 then Inr (char_of i) else Inl ValueError)"

text \<open>
  \<^verbatim>\<open>xs[i]\<close> and \<^verbatim>\<open>xs[i] = v\<close>: a negative index counts from the end, an index
  out of range raises IndexError.
\<close>

definition position :: "nat \<Rightarrow> int \<Rightarrow> nat option" where
  "position n i =
     (if 0 \<le> i \<and> i < int n then Some (nat i)
      else if - int n \<le> i \<and> i < 0 then Some (nat (int n + i))
      else None)"

definition item :: "'a list \<Rightarrow> int \<Rightarrow> exn + 'a" where
  "item xs i =
     (case position (length xs) i of
        None \<Rightarrow> Inl IndexError
      | Some k \<Rightarrow> Inr (xs ! k))"

definition setitem :: "'a list \<Rightarrow> int \<Rightarrow> 'a \<Rightarrow> exn + 'a list" where
  "setitem xs i v =
     (case position (length xs) i of
        None \<Rightarrow> Inl IndexError
      | Some k \<Rightarrow> Inr (xs[k := v]))"

text \<open>Sequencing of computations that may raise.\<close>

definition andthen :: "exn + 'a \<Rightarrow> ('a \<Rightarrow> exn + 'b) \<Rightarrow> exn + 'b" where
  "andthen m f = (case m of Inl e \<Rightarrow> Inl e | Inr x \<Rightarrow> f x)"

text \<open>\<^verbatim>\<open>"{}".format(n)\<close> and \<^verbatim>\<open>str(n)\<close> of an integer: its decimal digits.\<close>

fun str_nat :: "nat \<Rightarrow> string" where
  "str_nat n =
     (if n < 10 then [''0123456789'' ! n]
      else str_nat (n div 10) @ [''0123456789'' ! (n mod 10)])"

definition str_int :: "int \<Rightarrow> string" where
  "str_int i = (if i < 0 then CHR ''-'' # str_nat (nat (- i)) else str_nat (nat i))"

text \<open>
  IEEE doubles are kept as the unevaluated expression that produced them: the model
  follows which bytes enter a floating-point computation, not its rounding.
  \<open>FInt i\<close> is the integer \<open>i\<close> as an operand, \<open>FTen\<close> the literal \<^verbatim>\<open>10.0\<close>,
  \<open>FSingle w\<close> the IEEE-754 single whose 32 bits are \<open>w\<close>.
\<close>

datatype pyfloat =
    FInt int
  | FTen
  | FSingle "32 word"
  | FDiv pyfloat pyfloat
  | FAdd pyfloat pyfloat
  | FMul pyfloat pyfloat

record datetime =
  year :: int
  month :: int
  day :: int
  hour :: int
  minute :: int
  second :: int

text \<open>
  What the first component of a command's result tuple can be: \<^verbatim>\<open>None\<close>, a
  \<^verbatim>\<open>str\<close>, a list of ints, an int, a float, a float rendered with \<^verbatim>\<open>str\<close> and
  followed by a text, or a \<^verbatim>\<open>datetime\<close>.
\<close>

datatype pyval =
    PNone
  | PStr string
  | PList "int list"
  | PInt int
  | PFloat pyfloat
  | PFloatStr pyfloat string
  | PDate datetime

type_synonym reply = "pyval \<times> int \<times> string"

section \<open>The serial port\<close>

text \<open>
  pyserial's \<^verbatim>\<open>Serial\<close> object is the environment of every command. A port is
  modelled by what it will do: the outcomes of its coming \<^verbatim>\<open>write\<close> calls and
  of its coming \<^verbatim>\<open>read\<close> calls, in order, and by what has been written to it.
  \<^verbatim>\<open>read(n)\<close> returns at most \<^verbatim>\<open>n\<close> bytes of what the device delivers before
  the timeout; a script that has run out means a device that accepts every write
  and delivers nothing. A closed port raises on every call.
\<close>

datatype wevent = WriteOk | WriteFails

datatype revent = Delivers string | ReadFails

record port =
  is_open :: bool
  wscript :: "wevent list"
  rscript :: "revent list"
  sent :: "string list"

definition Serial_write :: "port \<Rightarrow> string \<Rightarrow> port \<times> exn option" where
  "Serial_write p txt =
     (if \<not> is_open p then (p, Some SerialException)
      else case wscript p of
        [] \<Rightarrow> (p\<lparr>sent := sent p @ [txt]\<rparr>, None)
      | WriteOk # ws \<Rightarrow> (p\<lparr>wscript := ws, sent := sent p @ [txt]\<rparr>, None)
      | WriteFails # ws \<Rightarrow> (p\<lparr>wscript := ws\<rparr>, Some SerialException))"

definition Serial_read :: "port \<Rightarrow> nat \<Rightarrow> port \<times> (exn + string)" where
  "Serial_read p n =
     (if \<not> is_open p then (p, Inl SerialException)
      else case rscript p of
        [] \<Rightarrow> (p, Inr [])
      | Delivers bs # rs \<Rightarrow> (p\<lparr>rscript := rs\<rparr>, Inr (take n bs))
      | ReadFails # rs \<Rightarrow> (p\<lparr>rscript := rs\<rparr>, Inl SerialException))"

definition Serial_close :: "port \<Rightarrow> port" where
  "Serial_close p = p\<lparr>is_open := False\<rparr>"

text \<open>
  Serial objects are shared: \<^verbatim>\<open>gglobs.ser\<close> and the \<^verbatim>\<open>ser\<close> argument of a command
  are usually the same object. The store maps a handle to its port; a \<^verbatim>\<open>ser\<close>
  value is \<^verbatim>\<open>None\<close> or a handle.
\<close>

type_synonym handle = nat
type_synonym store = "handle \<Rightarrow> port"

section \<open>serialCOMM: write, read, retry on a short read\<close>

definition countmax :: nat where
  "countmax = 5"

datatype retry_exit =
    Break string string
  | GiveUp reply
  | Propagates exn

text \<open>
  The \<^verbatim>\<open>while True\<close> loop of serialCOMM (lines 850-875), entered with
  \<^verbatim>\<open>count = 1\<close>. Its write and read are outside any \<^verbatim>\<open>try\<close>: an exception
  leaves serialCOMM uncaught. The loop ends by \<^verbatim>\<open>break\<close> with the record and the
  extended message, or by the \<^verbatim>\<open>return\<close> that gives up.
\<close>

function serialCOMM_retry ::
  "port \<Rightarrow> string \<Rightarrow> nat \<Rightarrow> string \<Rightarrow> nat \<Rightarrow> port \<times> retry_exit" where
  "serialCOMM_retry p sendtxt returnlength errmessage count =
     (case Serial_write p sendtxt of
        (p1, Some e) \<Rightarrow> (p1, Propagates e)
      | (p1, None) \<Rightarrow>
          (case Serial_read p1 returnlength of
             (p2, Inl e) \<Rightarrow> (p2, Propagates e)
           | (p2, Inr rec) \<Rightarrow>
               if length rec = returnlength
               then (p2, Break rec (errmessage @ ''; ok after '' @ str_nat count @ '' retry''))
               else if count + 1 \<ge> countmax
               then (p2, GiveUp (PNone, - 1,
                      ''serialCOMM: ERROR communicating  - giving up - is the baudrate set correctly?''))
               else serialCOMM_retry p2 sendtxt returnlength errmessage (count + 1)))"
  by pat_completeness auto
termination
  by (relation "measure (\<lambda>(p, sendtxt, returnlength, errmessage, count). countmax - count)")
     (auto simp: countmax_def)

declare serialCOMM_retry.simps [simp del]

definition byteformat_rec :: "bool \<Rightarrow> string \<Rightarrow> pyval" where
  "byteformat_rec byteformat rec = (if byteformat then PList (map ord rec) else PStr rec)"

text \<open>serialCOMM on an open Serial object (lines 804-879).\<close>

definition serialCOMM_port :: "port \<Rightarrow> string \<Rightarrow> nat \<Rightarrow> bool \<Rightarrow> port \<times> reply outcome" where
  "serialCOMM_port p sendtxt returnlength byteformat =
     (case Serial_write p sendtxt of
        (p1, Some e) \<Rightarrow>
          (Serial_close p1, Returned (PNone, - 1,
             ''serialCOMM: ERROR: WRITE failed in function serialCOMM. See log for details''))
      | (p1, None) \<Rightarrow>
          (case Serial_read p1 returnlength of
             (p2, Inl e) \<Rightarrow>
               (Serial_close p2, Returned (PNone, - 1,
                  ''serialCOMM: ERROR: READ failed in function serialCOMM. See log for details''))
           | (p2, Inr rec) \<Rightarrow>
               if length rec < returnlength
               then (case serialCOMM_retry p2 sendtxt returnlength
                            (''serialCOMM: ERROR: Record too short: Received bytes:''
                               @ str_nat (length rec) @ '' < requested:'' @ str_nat returnlength) 1 of
                       (p3, Propagates e) \<Rightarrow> (p3, Raised e)
                     | (p3, GiveUp r) \<Rightarrow> (p3, Returned r)
                     | (p3, Break rec' errmessage) \<Rightarrow>
                         (p3, Returned (byteformat_rec byteformat rec', 1, errmessage)))
               else (p2, Returned (byteformat_rec byteformat rec, 0, ''''))))"

text \<open>serialCOMM (lines 788-879): \<^verbatim>\<open>ser == None\<close> returns at once.\<close>

definition serialCOMM ::
  "store \<Rightarrow> handle option \<Rightarrow> string \<Rightarrow> nat \<Rightarrow> bool \<Rightarrow> store \<times> reply outcome" where
  "serialCOMM st ser sendtxt returnlength byteformat =
     (case ser of
        None \<Rightarrow> (st, Returned (PStr '''', - 1, ''Serial Port is closed''))
      | Some h \<Rightarrow>
          (case serialCOMM_port (st h) sendtxt returnlength byteformat of
             (p, r) \<Rightarrow> (st(h := p), r)))"

section \<open>Session globals\<close>

text \<open>
  The module \<^verbatim>\<open>gglobs\<close> holds the session's state. The commands read the shared
  Serial object, the index of the selected device model, the table of save-data
  labels and the offset of the save-data byte from it; they are parameters here.
\<close>

record gglobs =
  gglobs_ser :: "handle option"
  devicesIndex :: int
  savedatatypes :: "string list"
  cfgOffsetSDT :: int

section \<open>Reading a record\<close>

text \<open>
  Each command decodes the record in the branch \<^verbatim>\<open>if error == 0 or error == 1\<close>;
  the decoding expressions are the definitions \<open>CPM_value\<close>, \<open>CPS_value\<close>,
  \<open>VOLT_value\<close>, \<open>SERIAL_value\<close>, \<open>DATETIME_value\<close>, \<open>TEMP_value\<close> and
  \<open>GYRO_value\<close> below, each next to its command.

  \<^verbatim>\<open>rec[i]\<close> used as a number. Under error code 0 or 1 a record read with
  \<^verbatim>\<open>byteformat = True\<close> is a list of ints; on \<^verbatim>\<open>None\<close> the subscript raises
  TypeError, and a character of a \<^verbatim>\<open>str\<close> is not a number.
\<close>

definition int_at :: "pyval \<Rightarrow> int \<Rightarrow> exn + int" where
  "int_at rec i =
     (case rec of
        PList xs \<Rightarrow> item xs i
      | PStr s \<Rightarrow> andthen (item s i) (\<lambda>c. Inl TypeError)
      | _ \<Rightarrow> Inl TypeError)"

definition len :: "pyval \<Rightarrow> exn + nat" where
  "len rec =
     (case rec of
        PList xs \<Rightarrow> Inr (length xs)
      | PStr s \<Rightarrow> Inr (length s)
      | _ \<Rightarrow> Inl TypeError)"

section \<open>Commands\<close>

subsection \<open>getCPMS (lines 50-86)\<close>

text \<open>
  The two decoding expressions, \<^verbatim>\<open>rec[0]<< 8 | rec[1]\<close> (line 77) and
  \<^verbatim>\<open>((rec[0] & 0x3f) << 8 | rec[1]) * 60\<close> (line 83), on Python's unbounded ints.
\<close>

definition CPM_value :: "pyval \<Rightarrow> exn + int" where
  "CPM_value rec =
     andthen (int_at rec 0) (\<lambda>r0.
     andthen (int_at rec 1) (\<lambda>r1.
     Inr ((push_bit 8 r0) OR r1)))"

definition CPS_value :: "pyval \<Rightarrow> exn + int" where
  "CPS_value rec =
     andthen (int_at rec 0) (\<lambda>r0.
     andthen (int_at rec 1) (\<lambda>r1.
     Inr (((push_bit 8 (r0 AND 0x3f)) OR r1) * 60)))"

definition getCPMS :: "store \<Rightarrow> handle option \<Rightarrow> bool \<Rightarrow> store \<times> reply outcome" where
  "getCPMS st ser CPMflag =
     (if CPMflag then
        (case serialCOMM st ser ''<GETCPM>>'' 2 True of
           (st', Raised e) \<Rightarrow> (st', Raised e)
         | (st', Returned (rec, error, errmessage)) \<Rightarrow>
             if error = 0 \<or> error = 1 then
               (case CPM_value rec of
                  Inl e \<Rightarrow> (st', Raised e)
                | Inr v \<Rightarrow> (st', Returned (PInt v, error, errmessage)))
             else (st', Returned (rec, error, errmessage)))
      else
        (case serialCOMM st ser ''<GETCPS>>'' 2 True of
           (st', Raised e) \<Rightarrow> (st', Raised e)
         | (st', Returned (rec, error, errmessage)) \<Rightarrow>
             if error = 0 \<or> error = 1 then
               (case CPS_value rec of
                  Inl e \<Rightarrow> (st', Raised e)
                | Inr v \<Rightarrow> (st', Returned (PInt v, error, errmessage)))
             else (st', Returned (rec, error, errmessage))))"

subsection \<open>Commands that read no reply (lines 89-118, 534-567)\<close>

definition turnHeartbeatOn :: "store \<Rightarrow> handle option \<Rightarrow> store \<times> reply outcome" where
  "turnHeartbeatOn st ser =
     (if ser = None then (st, Returned (PStr '''', 1, ''No serial connection, returning''))
      else serialCOMM st ser ''<HEARTBEAT1>>'' 0 True)"

definition turnHeartbeatOFF :: "store \<Rightarrow> handle option \<Rightarrow> store \<times> reply outcome" where
  "turnHeartbeatOFF st ser =
     (if ser = None then (st, Returned (PStr '''', 1, ''No serial connection, returning''))
      else serialCOMM st ser ''<HEARTBEAT0>>'' 0 True)"

definition setPOWEROFF :: "store \<Rightarrow> handle option \<Rightarrow> store \<times> reply outcome" where
  "setPOWEROFF st ser = serialCOMM st ser ''<POWEROFF>>'' 0 True"

definition setPOWERON :: "store \<Rightarrow> handle option \<Rightarrow> store \<times> reply outcome" where
  "setPOWERON st ser = serialCOMM st ser ''<POWERON>>'' 0 True"

definition setREBOOT :: "store \<Rightarrow> handle option \<Rightarrow> store \<times> reply outcome" where
  "setREBOOT st ser = serialCOMM st ser ''<REBOOT>>'' 0 True"

subsection \<open>getVOLT (lines 121-137)\<close>

definition VOLT_value :: "pyval \<Rightarrow> exn + pyval" where
  "VOLT_value rec = andthen (int_at rec 0) (\<lambda>r0. Inr (PFloat (FDiv (FInt r0) FTen)))"

definition getVOLT :: "store \<Rightarrow> handle option \<Rightarrow> store \<times> reply outcome" where
  "getVOLT st ser =
     (case serialCOMM st ser ''<GETVOLT>>'' 1 True of
        (st', Raised e) \<Rightarrow> (st', Raised e)
      | (st', Returned (rec, error, errmessage)) \<Rightarrow>
          if error = 0 \<or> error = 1 then
            (case VOLT_value rec of
               Inl e \<Rightarrow> (st', Raised e)
             | Inr v \<Rightarrow> (st', Returned (v, error, errmessage)))
          else (st', Returned (rec, error, errmessage)))"

subsection \<open>getSPIR (lines 140-194)\<close>

text \<open>
  \<^verbatim>\<open>struct.pack(">I", v)\<close> and \<^verbatim>\<open>struct.pack(">H", v)\<close>: four and two bytes, most
  significant first; \<^verbatim>\<open>struct.error\<close> when \<open>v\<close> does not fit.
\<close>

definition pack_I :: "int \<Rightarrow> exn + string" where
  "pack_I v =
     (if 0 \<le> v \<and> v < 2 ^ 32
      then Inr [char_of (v div 2 ^ 24 mod 256), char_of (v div 2 ^ 16 mod 256),
                char_of (v div 2 ^ 8 mod 256), char_of (v mod 256)]
      else Inl StructError)"

definition pack_H :: "int \<Rightarrow> exn + string" where
  "pack_H v =
     (if 0 \<le> v \<and> v < 2 ^ 16
      then Inr [char_of (v div 2 ^ 8 mod 256), char_of (v mod 256)]
      else Inl StructError)"

text \<open>The command string built at lines 169-187; the high byte of the address is clipped.\<close>

definition SPIR_command :: "gglobs \<Rightarrow> int \<Rightarrow> int \<Rightarrow> exn + string" where
  "SPIR_command gg address datalength =
     andthen (pack_I address) (\<lambda>ad4.
     andthen (if devicesIndex gg = 3 then pack_H datalength else pack_H (datalength - 1)) (\<lambda>dl.
     Inr (''<SPIR'' @ tl ad4 @ dl @ ''>>'')))"

definition getSPIR ::
  "gglobs \<Rightarrow> store \<Rightarrow> handle option \<Rightarrow> int \<Rightarrow> int \<Rightarrow> store \<times> reply outcome" where
  "getSPIR gg st ser address datalength =
     (case SPIR_command gg address datalength of
        Inl e \<Rightarrow> (st, Raised e)
      | Inr sendtxt \<Rightarrow> serialCOMM st ser sendtxt (nat datalength) False)"

subsection \<open>writeConfigData and updateConfig (lines 356-402)\<close>

text \<open>
  Modelled from the spec: \<^verbatim>\<open>remove_trailing\<close> is a helper of the module
  \<^verbatim>\<open>gutils\<close>, whose source is not available. The spec describes the step as
  "trim trailing sentinel (0xFF) bytes from the tail"; the helper is called with
  \<^verbatim>\<open>remove_value=255\<close>.
\<close>

definition remove_trailing :: "int list \<Rightarrow> int \<Rightarrow> int list" where
  "remove_trailing xs remove_value = rev (dropWhile (\<lambda>x. x = remove_value) (rev xs))"

definition updateConfig :: "store \<Rightarrow> handle option \<Rightarrow> store \<times> reply outcome" where
  "updateConfig st ser = serialCOMM st ser ''<CFGUPDATE>>'' 1 True"

text \<open>
  \<^verbatim>\<open>enumerate(cfg)\<close>: each element with its index, counted from 0. The name
  \<open>enumerate\<close> is taken by a function on lists of the library, and the argument
  \<^verbatim>\<open>value\<close> of writeConfigData is called \<open>val\<close> below.
\<close>

definition enumerate_list :: "'a list \<Rightarrow> (int \<times> 'a) list" where
  "enumerate_list xs = zip (map int [0..<length xs]) xs"

text \<open>
  The \<^verbatim>\<open>for i, c in enumerate(cfg)\<close> loop (lines 382-386): one WCFG command per
  byte; the reply of each is dropped, an exception ends the loop.
\<close>

fun writeConfigData_loop ::
  "store \<Rightarrow> handle option \<Rightarrow> (int \<times> int) list \<Rightarrow> store \<times> exn option" where
  "writeConfigData_loop st ser [] = (st, None)"
| "writeConfigData_loop st ser ((i, c) # rest) =
     (case chr i of
        Inl e \<Rightarrow> (st, Some e)
      | Inr A0 \<Rightarrow>
          (case chr c of
             Inl e \<Rightarrow> (st, Some e)
           | Inr D0 \<Rightarrow>
               (case serialCOMM st ser (''<WCFG'' @ [A0] @ [D0] @ ''>>'') 1 True of
                  (st', Raised e) \<Rightarrow> (st', Some e)
                | (st', Returned rec) \<Rightarrow> writeConfigData_loop st' ser rest)))"

definition writeConfigData ::
  "gglobs \<Rightarrow> store \<Rightarrow> handle option \<Rightarrow> int list \<Rightarrow> int \<Rightarrow> int \<Rightarrow> store \<times> reply outcome" where
  "writeConfigData gg st ser cfg cfgaddress val =
     (case serialCOMM st ser ''<ECFG>>'' 1 True of
        (st1, Raised e) \<Rightarrow> (st1, Raised e)
      | (st1, Returned rec) \<Rightarrow>
          (case setitem cfg cfgaddress val of
             Inl e \<Rightarrow> (st1, Raised e)
           | Inr cfg1 \<Rightarrow>
               (case writeConfigData_loop st1 ser (enumerate_list (remove_trailing cfg1 255)) of
                  (st2, Some e) \<Rightarrow> (st2, Raised e)
                | (st2, None) \<Rightarrow> updateConfig st2 (gglobs_ser gg))))"

subsection \<open>getSERIAL (lines 405-428)\<close>

definition hexlookup :: string where
  "hexlookup = ''0123456789ABCDEF''"

text \<open>The \<^verbatim>\<open>for i in range(0,7)\<close> loop, with \<^verbatim>\<open>sn\<close> as accumulator.\<close>

fun getSERIAL_loop :: "pyval \<Rightarrow> int list \<Rightarrow> string \<Rightarrow> exn + string" where
  "getSERIAL_loop rec [] sn = Inr sn"
| "getSERIAL_loop rec (i # rest) sn =
     andthen (int_at rec i) (\<lambda>r.
     andthen (item hexlookup (drop_bit 4 (r AND 0xF0))) (\<lambda>h1.
     andthen (int_at rec i) (\<lambda>r'.
     andthen (item hexlookup (r' AND 0x0F)) (\<lambda>h2.
     getSERIAL_loop rec rest (sn @ [h1] @ [h2])))))"

definition SERIAL_value :: "pyval \<Rightarrow> exn + string" where
  "SERIAL_value rec = getSERIAL_loop rec (map int [0..<7]) ''''"

definition getSERIAL :: "store \<Rightarrow> handle option \<Rightarrow> store \<times> reply outcome" where
  "getSERIAL st ser =
     (case serialCOMM st ser ''<GETSERIAL>>'' 7 True of
        (st', Raised e) \<Rightarrow> (st', Raised e)
      | (st', Returned (rec, error, errmessage)) \<Rightarrow>
          if error = 0 \<or> error = 1 then
            (case SERIAL_value rec of
               Inl e \<Rightarrow> (st', Raised e)
             | Inr sn \<Rightarrow> (st', Returned (PStr sn, error, errmessage)))
          else (st', Returned (rec, error, errmessage)))"

subsection \<open>getDATETIME (lines 454-479)\<close>

text \<open>
  The constructor \<^verbatim>\<open>datetime.datetime(year, month, day, hour, minute, second)\<close> of
  Python's library: ValueError unless the year is in 1..9999, the month in 1..12,
  the day in 1..(days of that month, 29 for a leap February), the hour in 0..23,
  minute and second in 0..59.
\<close>

definition is_leap :: "int \<Rightarrow> bool" where
  "is_leap y = (y mod 4 = 0 \<and> (y mod 100 \<noteq> 0 \<or> y mod 400 = 0))"

definition days_in_month :: "int \<Rightarrow> int \<Rightarrow> int" where
  "days_in_month y m =
     (if m = 2 \<and> is_leap y then 29
      else [31, 28, 31, 30, 31, 30, 31, 31, 30, 31, 30, 31] ! nat (m - 1))"

definition datetime_new :: "int \<Rightarrow> int \<Rightarrow> int \<Rightarrow> int \<Rightarrow> int \<Rightarrow> int \<Rightarrow> exn + datetime" where
  "datetime_new y m d hh mm ss =
     (if \<not> (1 \<le> y \<and> y \<le> 9999) then Inl ValueError
      else if \<not> (1 \<le> m \<and> m \<le> 12) then Inl ValueError
      else if \<not> (1 \<le> d \<and> d \<le> days_in_month y m) then Inl ValueError
      else if \<not> (0 \<le> hh \<and> hh \<le> 23) then Inl ValueError
      else if \<not> (0 \<le> mm \<and> mm \<le> 59) then Inl ValueError
      else if \<not> (0 \<le> ss \<and> ss \<le> 59) then Inl ValueError
      else Inr \<lparr>year = y, month = m, day = d, hour = hh, minute = mm, second = ss\<rparr>)"

text \<open>
  What the claims call a valid calendar date-time, written out: a month in 1..12, a
  day that the month has (February has 29 days in a leap year), an hour in 0..23,
  minute and second in 0..59.
\<close>

definition calendar_date_time :: "int \<Rightarrow> int \<Rightarrow> int \<Rightarrow> int \<Rightarrow> int \<Rightarrow> int \<Rightarrow> bool" where
  "calendar_date_time y m d hh mm ss =
     (1 \<le> m \<and> m \<le> 12 \<and> 1 \<le> d
      \<and> (d \<le> 28
         \<or> d = 29 \<and> (m \<noteq> 2 \<or> y mod 4 = 0 \<and> (y mod 100 \<noteq> 0 \<or> y mod 400 = 0))
         \<or> d = 30 \<and> m \<noteq> 2
         \<or> d = 31 \<and> m \<in> {1, 3, 5, 7, 8, 10, 12})
      \<and> 0 \<le> hh \<and> hh \<le> 23 \<and> 0 \<le> mm \<and> mm \<le> 59 \<and> 0 \<le> ss \<and> ss \<le> 59)"

text \<open>
  The arguments of the debug print at line 465 are evaluated before the call:
  \<^verbatim>\<open>len(rec)\<close> raises TypeError when serialCOMM returned \<^verbatim>\<open>None\<close>. Whatever is
  raised inside the \<^verbatim>\<open>try\<close> gives the fake date and error code -1.
\<close>

definition DATETIME_value :: "pyval \<Rightarrow> exn + datetime" where
  "DATETIME_value rec =
     andthen (int_at rec 0) (\<lambda>r0.
     andthen (int_at rec 1) (\<lambda>r1.
     andthen (int_at rec 2) (\<lambda>r2.
     andthen (int_at rec 3) (\<lambda>r3.
     andthen (int_at rec 4) (\<lambda>r4.
     andthen (int_at rec 5) (\<lambda>r5.
     datetime_new (r0 + 2000) r1 r2 r3 r4 r5))))))"

definition getDATETIME :: "store \<Rightarrow> handle option \<Rightarrow> store \<times> reply outcome" where
  "getDATETIME st ser =
     (case serialCOMM st ser ''<GETDATETIME>>'' 7 True of
        (st', Raised e) \<Rightarrow> (st', Raised e)
      | (st', Returned (rec, error, errmessage)) \<Rightarrow>
          (case len rec of
             Inl e \<Rightarrow> (st', Raised e)
           | Inr n \<Rightarrow>
               if error = 0 \<or> error = 1 then
                 (case DATETIME_value rec of
                    Inl e \<Rightarrow>
                      (st', Returned (PStr ''2099-09-09 09:09:09'', - 1,
                         ''ERROR getting Date & Time from device''))
                  | Inr d \<Rightarrow> (st', Returned (PDate d, error, errmessage)))
               else (st', Returned (rec, error, errmessage))))"

subsection \<open>getTEMP (lines 482-506)\<close>

definition TEMP_value :: "pyval \<Rightarrow> exn + pyval" where
  "TEMP_value rec =
     andthen (int_at rec 0) (\<lambda>r0.
     andthen (int_at rec 1) (\<lambda>r1.
     andthen (int_at rec 2) (\<lambda>r2.
     andthen (int_at rec 1) (\<lambda>r1'.
     let temp = FAdd (FInt r0) (FDiv (FInt r1) FTen);
         temp = (if r2 \<noteq> 0 then FMul temp (FInt (- 1)) else temp)
     in Inr (if r1' > 9
             then PFloatStr temp
                    ('' ERROR: illegal value found for decimal part of temperature =''
                       @ str_int r1')
             else PFloat temp)))))"

definition getTEMP :: "store \<Rightarrow> handle option \<Rightarrow> store \<times> reply outcome" where
  "getTEMP st ser =
     (case serialCOMM st ser ''<GETTEMP>>'' 4 True of
        (st', Raised e) \<Rightarrow> (st', Raised e)
      | (st', Returned (rec, error, errmessage)) \<Rightarrow>
          if error = 0 \<or> error = 1 then
            (case TEMP_value rec of
               Inl e \<Rightarrow> (st', Raised e)
             | Inr v \<Rightarrow> (st', Returned (v, error, errmessage)))
          else (st', Returned (rec, error, errmessage)))"

subsection \<open>getGYRO (lines 509-531)\<close>

text \<open>\<^verbatim>\<open>"{:04x}".format(i)\<close>: lower-case hexadecimal, zero-padded to four characters.\<close>

fun hex_nat :: "nat \<Rightarrow> string" where
  "hex_nat n =
     (if n < 16 then [''0123456789abcdef'' ! n]
      else hex_nat (n div 16) @ [''0123456789abcdef'' ! (n mod 16)])"

definition zfill :: "nat \<Rightarrow> string \<Rightarrow> string" where
  "zfill w s = replicate (w - length s) (CHR ''0'') @ s"

definition format_04x :: "int \<Rightarrow> string" where
  "format_04x i =
     (if i < 0 then CHR ''-'' # zfill 3 (hex_nat (nat (- i))) else zfill 4 (hex_nat (nat i)))"

definition GYRO_value :: "pyval \<Rightarrow> exn + string" where
  "GYRO_value rec =
     andthen (int_at rec 0) (\<lambda>r0.
     andthen (int_at rec 1) (\<lambda>r1.
     andthen (int_at rec 2) (\<lambda>r2.
     andthen (int_at rec 3) (\<lambda>r3.
     andthen (int_at rec 4) (\<lambda>r4.
     andthen (int_at rec 5) (\<lambda>r5.
     let x = r0 * 256 + r1; y = r2 * 256 + r3; z = r4 * 256 + r5
     in Inr (''X=0x'' @ format_04x x @ '', Y=0x'' @ format_04x y
               @ '', Z=0x'' @ format_04x z @ ''   ('' @ str_int x @ '','' @ str_int y
               @ '','' @ str_int z @ '')'')))))))"

definition getGYRO :: "store \<Rightarrow> handle option \<Rightarrow> store \<times> reply outcome" where
  "getGYRO st ser =
     (case serialCOMM st ser ''<GETGYRO>>'' 7 True of
        (st', Raised e) \<Rightarrow> (st', Raised e)
      | (st', Returned (rec, error, errmessage)) \<Rightarrow>
          if error = 0 \<or> error = 1 then
            (case GYRO_value rec of
               Inl e \<Rightarrow> (st', Raised e)
             | Inr txt \<Rightarrow> (st', Returned (PStr txt, error, errmessage)))
          else (st', Returned (rec, error, errmessage)))"

subsection \<open>getSaveDataType (lines 640-662)\<close>

text \<open>
  The subscript \<^verbatim>\<open>cfg[gglobs.cfgOffsetSDT]\<close> is outside the \<^verbatim>\<open>try\<close>; the table
  lookup is inside, and whatever it raises gives the "Error in getSaveDataType" text.
\<close>

definition getSaveDataType :: "gglobs \<Rightarrow> int list \<Rightarrow> exn + (int \<times> string)" where
  "getSaveDataType gg cfg =
     (let sdttxt = savedatatypes gg in
      andthen (item cfg (cfgOffsetSDT gg)) (\<lambda>sdt.
        Inr (sdt,
          case (if sdt \<le> int (length sdttxt) then item sdttxt sdt
                else Inr (''Unknown SaveDataType: '' @ str_int sdt)) of
            Inl e \<Rightarrow> ''Error in getSaveDataType, undefined type: '' @ str_int sdt
          | Inr txt \<Rightarrow> txt)))"

subsection \<open>ftextCalibration (lines 1244-1276)\<close>

text \<open>
  \<^verbatim>\<open>struct.unpack(">H", s)[0]\<close> reads two bytes, most significant first.
  \<^verbatim>\<open>struct.unpack(fString, s)[0]\<close> with \<^verbatim>\<open>">f"\<close> or \<^verbatim>\<open>"<f"\<close> reads four bytes as
  an IEEE-754 single, most significant byte first or last; the value is kept as
  its 32 bits.
\<close>

definition unpack_H :: "string \<Rightarrow> exn + int" where
  "unpack_H s =
     (case s of
        [c0, c1] \<Rightarrow> Inr (ord c0 * 2 ^ 8 + ord c1)
      | _ \<Rightarrow> Inl StructError)"

definition unpack_f :: "string \<Rightarrow> string \<Rightarrow> exn + pyfloat" where
  "unpack_f fString s =
     (case s of
        [c0, c1, c2, c3] \<Rightarrow>
          if fString = ''>f''
          then Inr (FSingle (word_of_int (ord c0 * 2 ^ 24 + ord c1 * 2 ^ 16 + ord c2 * 2 ^ 8 + ord c3)))
          else if fString = ''<f''
          then Inr (FSingle (word_of_int (ord c3 * 2 ^ 24 + ord c2 * 2 ^ 16 + ord c1 * 2 ^ 8 + ord c0)))
          else Inl StructError
      | _ \<Rightarrow> Inl StructError)"

text \<open>\<^verbatim>\<open>chr(cfg[i])\<close>.\<close>

definition chr_cfg :: "int list \<Rightarrow> int \<Rightarrow> exn + char" where
  "chr_cfg cfg i = andthen (item cfg i) chr"

definition cal_CPM_at :: "int list \<Rightarrow> int \<Rightarrow> exn + int" where
  "cal_CPM_at cfg i =
     andthen (chr_cfg cfg i) (\<lambda>c0.
     andthen (chr_cfg cfg (i + 1)) (\<lambda>c1.
     unpack_H ([c0] @ [c1])))"

definition cal_uSv_at :: "string \<Rightarrow> int list \<Rightarrow> int \<Rightarrow> exn + pyfloat" where
  "cal_uSv_at fString cfg i =
     andthen (chr_cfg cfg i) (\<lambda>c0.
     andthen (chr_cfg cfg (i + 1)) (\<lambda>c1.
     andthen (chr_cfg cfg (i + 2)) (\<lambda>c2.
     andthen (chr_cfg cfg (i + 3)) (\<lambda>c3.
     unpack_f fString ([c0] @ [c1] @ [c2] @ [c3])))))"

text \<open>
  The text returned is either the literal error text or the three formatted lines.
  A line is kept as the arguments of its \<^verbatim>\<open>format\<close> call: the CPM value, the dose
  rate and their quotient, which raises ZeroDivisionError when the CPM value is 0.
\<close>

datatype ftext = Lines "(int \<times> pyfloat \<times> pyfloat) list" | Literal string

fun calibration_lines :: "(int \<times> pyfloat) list \<Rightarrow> exn + (int \<times> pyfloat \<times> pyfloat) list" where
  "calibration_lines [] = Inr []"
| "calibration_lines ((cpm, usv) # rest) =
     (if cpm = 0 then Inl ZeroDivisionError
      else andthen (calibration_lines rest) (\<lambda>ls. Inr ((cpm, usv, FDiv usv (FInt cpm)) # ls)))"

definition ftextCalibration :: "gglobs \<Rightarrow> int list \<Rightarrow> ftext" where
  "ftextCalibration gg cfg =
     (case andthen (cal_CPM_at cfg 8) (\<lambda>cpm0.
           andthen (cal_CPM_at cfg 14) (\<lambda>cpm1.
           andthen (cal_CPM_at cfg 20) (\<lambda>cpm2.
           let fString = (if devicesIndex gg = 2 then ''>f'' else ''<f'') in
           andthen (cal_uSv_at fString cfg 10) (\<lambda>usv0.
           andthen (cal_uSv_at fString cfg 16) (\<lambda>usv1.
           andthen (cal_uSv_at fString cfg 22) (\<lambda>usv2.
           calibration_lines [(cpm0, usv0), (cpm1, usv1), (cpm2, usv2)])))))) of
        Inl e \<Rightarrow> Literal ''ERROR in getting Calibration''
      | Inr ls \<Rightarrow> Lines ls)"

section \<open>Notions used in the statements\<close>

text \<open>The number that a sequence of bytes spells, most significant byte first.\<close>

definition be_value :: "int list \<Rightarrow> int" where
  "be_value bs = foldl (\<lambda>v b. v * 256 + b) 0 bs"

text \<open>
  A device is responsive for \<open>k\<close> exchanges when its port is open, no coming write
  raises, and each of the next \<open>k\<close> reads delivers at least one byte.
\<close>

fun answering :: "revent \<Rightarrow> bool" where
  "answering (Delivers (c # cs)) = True"
| "answering (Delivers []) = False"
| "answering ReadFails = False"

definition responsive :: "nat \<Rightarrow> port \<Rightarrow> bool" where
  "responsive k p =
     (is_open p \<and> WriteFails \<notin> set (wscript p) \<and> k \<le> length (rscript p)
      \<and> list_all answering (take k (rscript p)))"

text \<open>The WCFG command for an offset and a byte.\<close>

definition WCFG :: "int \<times> int \<Rightarrow> string" where
  "WCFG ic = ''<WCFG'' @ [char_of (fst ic)] @ [char_of (snd ic)] @ ''>>''"

text \<open>
  A port is calm when it is open and none of its coming writes and reads raises;
  the device may still answer late or not at all.
\<close>

definition calm :: "port \<Rightarrow> bool" where
  "calm p = (is_open p \<and> WriteFails \<notin> set (wscript p) \<and> ReadFails \<notin> set (rscript p))"

text \<open>
  A sequence of commands in which the first is written \<open>ks ! 0\<close> times, then the
  second \<open>ks ! 1\<close> times, and so on.
\<close>

definition repeated :: "nat list \<Rightarrow> string list \<Rightarrow> string list" where
  "repeated ks frames = concat (map (\<lambda>(k, frame). replicate k frame) (zip ks frames))"

section \<open>Example devices\<close>

text \<open>A device that answers short twice and in full the third time.\<close>

definition short_twice :: port where
  "short_twice = \<lparr>is_open = True, wscript = [WriteOk, WriteOk, WriteOk],
     rscript = [Delivers ''A'', Delivers '''', Delivers ''AB''], sent = []\<rparr>"

text \<open>A device that answers short five times.\<close>

definition short_always :: port where
  "short_always = \<lparr>is_open = True, wscript = [WriteOk, WriteOk, WriteOk, WriteOk, WriteOk],
     rscript = [Delivers ''A'', Delivers '''', Delivers ''B'', Delivers ''C'', Delivers ''''],
     sent = []\<rparr>"

text \<open>
  Devices whose first answer is short and whose port then raises: at the second
  write, and at the second read.
\<close>

definition retry_write_fails :: port where
  "retry_write_fails = \<lparr>is_open = True, wscript = [WriteOk, WriteFails],
     rscript = [Delivers ''''], sent = []\<rparr>"

definition retry_read_fails :: port where
  "retry_read_fails = \<lparr>is_open = True, wscript = [],
     rscript = [Delivers '''', ReadFails], sent = []\<rparr>"

text \<open>A port whose next write raises.\<close>

definition write_fails :: port where
  "write_fails = \<lparr>is_open = True, wscript = [WriteFails], rscript = [], sent = []\<rparr>"

text \<open>A device that has three bytes pending.\<close>

definition chatty :: port where
  "chatty = \<lparr>is_open = True, wscript = [], rscript = [Delivers ''xyz''], sent = []\<rparr>"

text \<open>A device that answers the two bytes FF FF.\<close>

definition cps_max :: port where
  "cps_max = \<lparr>is_open = True, wscript = [], rscript = [Delivers [CHR 0xFF, CHR 0xFF]],
     sent = []\<rparr>"

text \<open>A device that answers a GETDATETIME with 17-12-31 14:03:19 and the trailer 0.\<close>

definition clock :: port where
  "clock = \<lparr>is_open = True, wscript = [],
     rscript = [Delivers [CHR 0x11, CHR 0x0C, CHR 0x1F, CHR 0x0E, CHR 0x03, CHR 0x13, CHR 0x00]],
     sent = []\<rparr>"

text \<open>The same answer with the month byte 13.\<close>

definition clock_month_13 :: port where
  "clock_month_13 = \<lparr>is_open = True, wscript = [],
     rscript = [Delivers [CHR 0x11, CHR 0x0D, CHR 0x1F, CHR 0x0E, CHR 0x03, CHR 0x13, CHR 0x00]],
     sent = []\<rparr>"

text \<open>
  Modelled from the spec: the values of the module \<^verbatim>\<open>gglobs\<close> are not among the
  sources. The spec gives a table of four save-data modes (off, per second, per
  minute, per hour) and the docstring of getSaveDataType puts the byte at offset 32;
  the wording of the labels and the device index 1 are an example of a session.
\<close>

definition gglobs_300E :: gglobs where
  "gglobs_300E = \<lparr>gglobs_ser = Some 0, devicesIndex = 1,
     savedatatypes = [''OFF (no history saving)'', ''CPS, save every second'',
                      ''CPM, save every minute'', ''CPM, save hourly average''],
     cfgOffsetSDT = 32\<rparr>"

text \<open>
  The first 33 bytes of the configuration of a GMC-300E+ that a comment in
  getExtraByte quotes (line 248).
\<close>

definition cfg_300E :: "int list" where
  "cfg_300E = [0, 0, 0, 2, 31, 0, 0, 100, 0, 60, 20, 174, 199, 62, 0, 240, 20, 174, 199, 63,
               3, 232, 0, 0, 208, 64, 4, 0, 0, 0, 63, 0, 2]"

text \<open>A device that answers each of eight commands with the byte AA.\<close>

definition device_AA :: port where
  "device_AA = \<lparr>is_open = True, wscript = [],
     rscript = replicate 8 (Delivers [CHR 0xAA]), sent = []\<rparr>"

text \<open>A configuration of 256 zero bytes.\<close>

definition cfg_zero :: "int list" where
  "cfg_zero = replicate 256 0"

text \<open>An erased configuration: 256 bytes 0xFF.\<close>

definition cfg_erased :: "int list" where
  "cfg_erased = replicate 256 255"

text \<open>A device that answers 0xAA twice, on a port whose third write raises.\<close>

definition write_fails_third :: port where
  "write_fails_third = \<lparr>is_open = True, wscript = [WriteOk, WriteOk, WriteFails],
     rscript = [Delivers [CHR 0xAA], Delivers [CHR 0xAA]], sent = []\<rparr>"

section \<open>Properties of serialCOMM\<close>

subsection \<open>One write, one read\<close>

lemma Serial_write_ok:
  "is_open p \<Longrightarrow> wscript p = WriteOk # ws \<Longrightarrow>
   Serial_write p frame = (p\<lparr>wscript := ws, sent := sent p @ [frame]\<rparr>, None)"
  by (simp add: Serial_write_def)

lemma Serial_read_delivers:
  "is_open p \<Longrightarrow> rscript p = Delivers bs # rs \<Longrightarrow>
   Serial_read p n = (p\<lparr>rscript := rs\<rparr>, Inr (take n bs))"
  by (simp add: Serial_read_def)

lemma Serial_write_cases:
  assumes "Serial_write p frame = (p1, r)"
  shows "is_open p1 = is_open p \<and> rscript p1 = rscript p \<and>
         (case r of None \<Rightarrow> is_open p \<and> sent p1 = sent p @ [frame]
                  | Some e \<Rightarrow> sent p1 = sent p)"
  using assms
  by (auto simp: Serial_write_def split: if_splits list.splits wevent.splits)

lemma Serial_read_cases:
  assumes "Serial_read p n = (p2, r)"
  shows "is_open p2 = is_open p \<and> sent p2 = sent p \<and> wscript p2 = wscript p \<and>
         (case r of Inr bs \<Rightarrow> length bs \<le> n | Inl e \<Rightarrow> True)"
  using assms
  by (auto simp: Serial_read_def split: if_splits list.splits revent.splits)

lemma retry_sent:
  "serialCOMM_retry p frame n msg count = (p', x) \<Longrightarrow> count < countmax \<Longrightarrow>
   is_open p' = is_open p \<and>
   (\<exists>k. k \<le> countmax - count \<and> sent p' = sent p @ replicate k frame)"
proof (induction p frame n msg count arbitrary: p' x rule: serialCOMM_retry.induct)
  case (1 p sendtxt returnlength errmessage count)
  obtain p1 w where W: "Serial_write p sendtxt = (p1, w)" by fastforce
  note Wc = Serial_write_cases [OF W]
  note unfolded = "1.prems"(1) [unfolded serialCOMM_retry.simps [of p sendtxt returnlength errmessage count]]
  show ?case
  proof (cases w)
    case (Some e)
    from unfolded W Some have "p' = p1" by simp
    moreover from Wc Some have "sent p1 = sent p @ replicate 0 sendtxt" by simp
    ultimately show ?thesis using Wc by blast
  next
    case None
    obtain p2 r where R: "Serial_read p1 returnlength = (p2, r)" by fastforce
    note Rc = Serial_read_cases [OF R]
    from Wc Rc None have s2: "sent p2 = sent p @ replicate 1 sendtxt" and o2: "is_open p2 = is_open p"
      by simp_all
    from "1.prems"(2) have one: "1 \<le> countmax - count" by simp
    show ?thesis
    proof (cases r)
      case (Inl e)
      from unfolded W None R Inl have "p' = p2" by simp
      with s2 o2 one show ?thesis by blast
    next
      case (Inr bs)
      show ?thesis
      proof (cases "length bs = returnlength \<or> countmax \<le> count + 1")
        case True
        with unfolded W None R Inr have "p' = p2" by (auto split: if_splits)
        with s2 o2 one show ?thesis by blast
      next
        case False
        with unfolded W None R Inr
        have rec: "serialCOMM_retry p2 sendtxt returnlength errmessage (count + 1) = (p', x)"
          by simp
        from False have lt: "count + 1 < countmax" by simp
        from False have ne: "length bs \<noteq> returnlength" and nc: "\<not> countmax \<le> count + 1" by simp_all
        from "1.IH" [OF W [symmetric] None R [symmetric] Inr ne nc rec lt]
        obtain k where k: "k \<le> countmax - (count + 1)" "sent p' = sent p2 @ replicate k sendtxt"
          and o: "is_open p' = is_open p2" by blast
        from k s2 have "sent p' = sent p @ replicate (Suc k) sendtxt"
          by (simp add: replicate_app_Cons_same)
        moreover from k lt have "Suc k \<le> countmax - count" by simp
        ultimately show ?thesis using o o2 by metis
      qed
    qed
  qed
qed


lemma retry_short:
  assumes "is_open p" "wscript p = WriteOk # ws" "rscript p = Delivers bs # rs"
    "length bs < n" "count + 1 < countmax"
  shows "serialCOMM_retry p frame n msg count =
         serialCOMM_retry (p\<lparr>wscript := ws, sent := sent p @ [frame], rscript := rs\<rparr>)
           frame n msg (count + 1)"
  using assms
  by (subst serialCOMM_retry.simps) (simp add: Serial_write_ok Serial_read_def)

lemma retry_full:
  assumes "is_open p" "wscript p = WriteOk # ws" "rscript p = Delivers bs # rs"
    "n \<le> length bs"
  shows "serialCOMM_retry p frame n msg count =
         (p\<lparr>wscript := ws, sent := sent p @ [frame], rscript := rs\<rparr>,
          Break (take n bs) (msg @ ''; ok after '' @ str_nat count @ '' retry''))"
  using assms
  by (subst serialCOMM_retry.simps) (simp add: Serial_write_ok Serial_read_def)

lemma retry_last:
  assumes "is_open p" "wscript p = WriteOk # ws" "rscript p = Delivers bs # rs"
    "length bs < n" "countmax \<le> count + 1"
  shows "serialCOMM_retry p frame n msg count =
         (p\<lparr>wscript := ws, sent := sent p @ [frame], rscript := rs\<rparr>,
          GiveUp (PNone, - 1,
            ''serialCOMM: ERROR communicating  - giving up - is the baudrate set correctly?''))"
  using assms
  by (subst serialCOMM_retry.simps) (simp add: Serial_write_ok Serial_read_def)

lemma port_recovers_after_two:
  assumes "is_open p" "wscript p = WriteOk # WriteOk # WriteOk # ws"
    "rscript p = Delivers r1 # Delivers r2 # Delivers r3 # rs"
    "length r1 < n" "length r2 < n" "n \<le> length r3"
  shows "serialCOMM_port p sendtxt n byteformat =
      (p\<lparr>wscript := ws, sent := sent p @ [sendtxt, sendtxt, sendtxt], rscript := rs\<rparr>,
       Returned (byteformat_rec byteformat (take n r3), 1,
         ''serialCOMM: ERROR: Record too short: Received bytes:'' @ str_nat (length r1)
           @ '' < requested:'' @ str_nat n @ ''; ok after 2 retry''))"
  using assms
  by (simp add: serialCOMM_port_def Serial_write_ok Serial_read_delivers retry_short retry_full
      countmax_def)

lemma port_gives_up_after_five:
  assumes "is_open p" "wscript p = WriteOk # WriteOk # WriteOk # WriteOk # WriteOk # ws"
    "rscript p = Delivers r1 # Delivers r2 # Delivers r3 # Delivers r4 # Delivers r5 # rs"
    "length r1 < n" "length r2 < n" "length r3 < n" "length r4 < n" "length r5 < n"
  shows "serialCOMM_port p sendtxt n byteformat =
      (p\<lparr>wscript := ws, sent := sent p @ [sendtxt, sendtxt, sendtxt, sendtxt, sendtxt],
         rscript := rs\<rparr>,
       Returned (PNone, - 1,
         ''serialCOMM: ERROR communicating  - giving up - is the baudrate set correctly?''))"
  using assms
  by (simp add: serialCOMM_port_def Serial_write_ok Serial_read_delivers retry_short retry_last
      countmax_def)

lemma serialCOMM_port_sent:
  assumes "serialCOMM_port p frame n bf = (p', r)"
  shows "\<exists>k\<le>5. sent p' = sent p @ replicate k frame"
proof -
  obtain p1 w where W: "Serial_write p frame = (p1, w)" by fastforce
  note Wc = Serial_write_cases [OF W]
  note unfolded = assms [unfolded serialCOMM_port_def]
  show ?thesis
  proof (cases w)
    case (Some e)
    with unfolded W have "p' = Serial_close p1" by simp
    with Wc Some have "sent p' = sent p @ replicate 0 frame" by (simp add: Serial_close_def)
    then show ?thesis by blast
  next
    case None
    obtain p2 rd where R: "Serial_read p1 n = (p2, rd)" by fastforce
    note Rc = Serial_read_cases [OF R]
    from Wc Rc None have s2: "sent p2 = sent p @ replicate 1 frame" by simp
    show ?thesis
    proof (cases rd)
      case (Inl e)
      with unfolded W None R have "p' = Serial_close p2" by simp
      with s2 have "sent p' = sent p @ replicate 1 frame" by (simp add: Serial_close_def)
      then show ?thesis by (intro exI [of _ 1]) simp
    next
      case (Inr bs)
      show ?thesis
      proof (cases "length bs < n")
        case False
        with unfolded W None R Inr have "p' = p2" by simp
        with s2 show ?thesis by (intro exI [of _ 1]) simp
      next
        case True
        obtain p3 x where L: "serialCOMM_retry p2 frame n
            (''serialCOMM: ERROR: Record too short: Received bytes:''
               @ str_nat (length bs) @ '' < requested:'' @ str_nat n) 1 = (p3, x)"
          by fastforce
        from unfolded W None R Inr True L have "p' = p3" by (simp split: retry_exit.splits)
        moreover from retry_sent [OF L] obtain k where
          "k \<le> countmax - 1" "sent p3 = sent p2 @ replicate k frame"
          by (auto simp: countmax_def)
        ultimately have "sent p' = sent p @ replicate (Suc k) frame" "Suc k \<le> 5"
          using s2 by (simp_all add: replicate_app_Cons_same countmax_def)
        then show ?thesis by blast
      qed
    qed
  qed
qed

subsection \<open>The bounded retry\<close>

text \<open>
  Claim C1. A first read shorter than requested starts the retry loop. If the first
  two reads are short and the third delivers the full length, serialCOMM returns
  the record with error code 1 and a message that ends in "ok after 2 retry". If
  five reads in a row are short, it returns \<^verbatim>\<open>None\<close> with error code -1 after the
  fifth, and the port is as open as before. Whatever the port does, one call
  writes the command at most five times.
\<close>

theorem C1_short_read_retry:
  "(is_open (st h) \<and> wscript (st h) = WriteOk # WriteOk # WriteOk # ws
      \<and> rscript (st h) = Delivers r1 # Delivers r2 # Delivers r3 # rs
      \<and> length r1 < n \<and> length r2 < n \<and> n \<le> length r3 \<longrightarrow>
    serialCOMM st (Some h) sendtxt n byteformat =
      (st(h := (st h)\<lparr>wscript := ws, sent := sent (st h) @ [sendtxt, sendtxt, sendtxt],
                        rscript := rs\<rparr>),
       Returned (byteformat_rec byteformat (take n r3), 1,
         ''serialCOMM: ERROR: Record too short: Received bytes:'' @ str_nat (length r1)
           @ '' < requested:'' @ str_nat n @ ''; ok after 2 retry'')))
   \<and> (is_open (st h) \<and> wscript (st h) = WriteOk # WriteOk # WriteOk # WriteOk # WriteOk # ws
      \<and> rscript (st h) = Delivers r1 # Delivers r2 # Delivers r3 # Delivers r4 # Delivers r5 # rs
      \<and> length r1 < n \<and> length r2 < n \<and> length r3 < n \<and> length r4 < n \<and> length r5 < n \<longrightarrow>
    serialCOMM st (Some h) sendtxt n byteformat =
      (st(h := (st h)\<lparr>wscript := ws,
                        sent := sent (st h) @ [sendtxt, sendtxt, sendtxt, sendtxt, sendtxt],
                        rscript := rs\<rparr>),
       Returned (PNone, - 1,
         ''serialCOMM: ERROR communicating  - giving up - is the baudrate set correctly?'')))
   \<and> (\<exists>k\<le>5. sent (fst (serialCOMM st (Some h) sendtxt n byteformat) h)
                 = sent (st h) @ replicate k sendtxt)"
proof (intro conjI impI)
  assume "is_open (st h) \<and> wscript (st h) = WriteOk # WriteOk # WriteOk # ws
      \<and> rscript (st h) = Delivers r1 # Delivers r2 # Delivers r3 # rs
      \<and> length r1 < n \<and> length r2 < n \<and> n \<le> length r3"
  then show "serialCOMM st (Some h) sendtxt n byteformat =
      (st(h := (st h)\<lparr>wscript := ws, sent := sent (st h) @ [sendtxt, sendtxt, sendtxt],
                        rscript := rs\<rparr>),
       Returned (byteformat_rec byteformat (take n r3), 1,
         ''serialCOMM: ERROR: Record too short: Received bytes:'' @ str_nat (length r1)
           @ '' < requested:'' @ str_nat n @ ''; ok after 2 retry''))"
    by (simp add: serialCOMM_def port_recovers_after_two)
next
  assume "is_open (st h) \<and> wscript (st h) = WriteOk # WriteOk # WriteOk # WriteOk # WriteOk # ws
      \<and> rscript (st h) = Delivers r1 # Delivers r2 # Delivers r3 # Delivers r4 # Delivers r5 # rs
      \<and> length r1 < n \<and> length r2 < n \<and> length r3 < n \<and> length r4 < n \<and> length r5 < n"
  then show "serialCOMM st (Some h) sendtxt n byteformat =
      (st(h := (st h)\<lparr>wscript := ws,
                        sent := sent (st h) @ [sendtxt, sendtxt, sendtxt, sendtxt, sendtxt],
                        rscript := rs\<rparr>),
       Returned (PNone, - 1,
         ''serialCOMM: ERROR communicating  - giving up - is the baudrate set correctly?''))"
    by (simp add: serialCOMM_def port_gives_up_after_five)
next
  obtain p' r where P: "serialCOMM_port (st h) sendtxt n byteformat = (p', r)" by fastforce
  from serialCOMM_port_sent [OF P] P
  show "\<exists>k\<le>5. sent (fst (serialCOMM st (Some h) sendtxt n byteformat) h)
                 = sent (st h) @ replicate k sendtxt"
    by (simp add: serialCOMM_def)
qed

theorem C1_short_read_retry_witness:
  "is_open short_twice \<and> length ''A'' < (2::nat) \<and> length '''' < (2::nat)
   \<and> (2::nat) \<le> length ''AB''
   \<and> serialCOMM (\<lambda>h. short_twice) (Some 0) ''<GETCPM>>'' 2 False =
     ((\<lambda>h. short_twice)(0 := short_twice\<lparr>wscript := [],
         sent := [''<GETCPM>>'', ''<GETCPM>>'', ''<GETCPM>>''], rscript := []\<rparr>),
      Returned (PStr ''AB'', 1,
        ''serialCOMM: ERROR: Record too short: Received bytes:1 < requested:2; ok after 2 retry''))
   \<and> is_open short_always
   \<and> serialCOMM (\<lambda>h. short_always) (Some 0) ''<GETCPM>>'' 2 True =
     ((\<lambda>h. short_always)(0 := short_always\<lparr>wscript := [],
         sent := [''<GETCPM>>'', ''<GETCPM>>'', ''<GETCPM>>'', ''<GETCPM>>'', ''<GETCPM>>''],
         rscript := []\<rparr>),
      Returned (PNone, - 1,
        ''serialCOMM: ERROR communicating  - giving up - is the baudrate set correctly?''))"
  using C1_short_read_retry [of "\<lambda>h. short_twice" 0 "[]" "''A''" "''''" "''AB''" "[]" 2
      "''<GETCPM>>''" False]
    C1_short_read_retry [of "\<lambda>h. short_always" 0 "[]" "''A''" "''''" "''B''" "[]" 2
      "''<GETCPM>>''" True "''C''" "''''"]
  by (simp add: short_twice_def short_always_def byteformat_rec_def)

subsection \<open>Exceptions of the port\<close>

lemma first_write_fails:
  "is_open p \<Longrightarrow> wscript p = WriteFails # ws \<Longrightarrow>
   serialCOMM_port p frame n bf =
     (p\<lparr>is_open := False, wscript := ws\<rparr>, Returned (PNone, - 1,
        ''serialCOMM: ERROR: WRITE failed in function serialCOMM. See log for details''))"
  by (simp add: serialCOMM_port_def Serial_write_def Serial_close_def)

lemma first_read_fails:
  "is_open p \<Longrightarrow> take 1 (wscript p) \<noteq> [WriteFails] \<Longrightarrow> rscript p = ReadFails # rs \<Longrightarrow>
   serialCOMM_port p frame n bf =
     (p\<lparr>is_open := False, wscript := tl (wscript p), rscript := rs, sent := sent p @ [frame]\<rparr>,
      Returned (PNone, - 1,
        ''serialCOMM: ERROR: READ failed in function serialCOMM. See log for details''))"
  by (auto simp: serialCOMM_port_def Serial_write_def Serial_read_def Serial_close_def
      split: list.splits wevent.splits)

lemma closed_port_fails:
  "\<not> is_open p \<Longrightarrow>
   serialCOMM_port p frame n bf =
     (p, Returned (PNone, - 1,
        ''serialCOMM: ERROR: WRITE failed in function serialCOMM. See log for details''))"
  by (simp add: serialCOMM_port_def Serial_write_def Serial_close_def)

lemma full_first_read:
  assumes "is_open p" "take 1 (wscript p) \<noteq> [WriteFails]" "rscript p = Delivers bs # rs"
    "n \<le> length bs"
  shows "serialCOMM_port p frame n bf =
     (p\<lparr>wscript := tl (wscript p), rscript := rs, sent := sent p @ [frame]\<rparr>,
      Returned (byteformat_rec bf (take n bs), 0, ''''))"
  using assms
  by (auto simp: serialCOMM_port_def Serial_write_def Serial_read_def
      split: list.splits wevent.splits)

text \<open>
  Claim C2. The claim holds for the first write and the first read
  (\<open>first_write_fails\<close>, \<open>first_read_fails\<close>: error code -1, port closed) and for the
  exhausted retry (C1: error code -1, port left open). It fails inside the retry
  loop, whose write and read are not guarded: with a short first answer, an
  exception of the second write or of the second read leaves serialCOMM uncaught,
  no result tuple is returned and the port stays open.
\<close>

theorem C2_retry_exception_uncaught:
  "snd (serialCOMM (\<lambda>h. retry_write_fails) (Some 0) ''<GETVER>>'' 14 False)
     = Raised SerialException
   \<and> is_open (fst (serialCOMM (\<lambda>h. retry_write_fails) (Some 0) ''<GETVER>>'' 14 False) 0)
   \<and> snd (serialCOMM (\<lambda>h. retry_read_fails) (Some 0) ''<GETVER>>'' 14 False)
     = Raised SerialException
   \<and> is_open (fst (serialCOMM (\<lambda>h. retry_read_fails) (Some 0) ''<GETVER>>'' 14 False) 0)"
  by (simp add: serialCOMM_def serialCOMM_port_def serialCOMM_retry.simps Serial_write_def
      Serial_read_def retry_write_fails_def retry_read_fails_def)

subsection \<open>Commands that expect no reply\<close>

text \<open>
  Claim C3, as stated, fails: a command that expects no reply still writes and
  still calls \<^verbatim>\<open>read(0)\<close>, and an exception of either gives error code -1 and
  \<^verbatim>\<open>None\<close>. Here the write of HEARTBEAT1 raises.
\<close>

theorem C3_zero_length_write_failure:
  "snd (turnHeartbeatOn (\<lambda>h. write_fails) (Some 0)) =
     Returned (PNone, - 1,
       ''serialCOMM: ERROR: WRITE failed in function serialCOMM. See log for details'')"
  by (simp add: turnHeartbeatOn_def serialCOMM_def first_write_fails write_fails_def)

lemma zero_length_port:
  assumes "is_open p" "take 1 (wscript p) \<noteq> [WriteFails]" "take 1 (rscript p) \<noteq> [ReadFails]"
  shows "serialCOMM_port p frame 0 bf =
     (p\<lparr>wscript := tl (wscript p), rscript := tl (rscript p), sent := sent p @ [frame]\<rparr>,
      Returned (byteformat_rec bf '''', 0, ''''))"
  using assms
  by (auto simp: serialCOMM_port_def Serial_write_def Serial_read_def
      split: list.splits wevent.splits revent.splits)

text \<open>
  Claim C3, amended. On an open port whose next write and next read do not raise,
  each of the five commands that expect no reply returns the empty list with error
  code 0 and an empty message, whatever the device delivers; the command is written
  once and one read is made, so the retry loop is not entered.
\<close>

theorem C3_zero_length_ok:
  "is_open (st h) \<and> take 1 (wscript (st h)) \<noteq> [WriteFails]
     \<and> take 1 (rscript (st h)) \<noteq> [ReadFails] \<longrightarrow>
   turnHeartbeatOn st (Some h) =
     (st(h := (st h)\<lparr>wscript := tl (wscript (st h)), rscript := tl (rscript (st h)),
                       sent := sent (st h) @ [''<HEARTBEAT1>>'']\<rparr>),
      Returned (PList [], 0, ''''))
   \<and> turnHeartbeatOFF st (Some h) =
     (st(h := (st h)\<lparr>wscript := tl (wscript (st h)), rscript := tl (rscript (st h)),
                       sent := sent (st h) @ [''<HEARTBEAT0>>'']\<rparr>),
      Returned (PList [], 0, ''''))
   \<and> setPOWEROFF st (Some h) =
     (st(h := (st h)\<lparr>wscript := tl (wscript (st h)), rscript := tl (rscript (st h)),
                       sent := sent (st h) @ [''<POWEROFF>>'']\<rparr>),
      Returned (PList [], 0, ''''))
   \<and> setPOWERON st (Some h) =
     (st(h := (st h)\<lparr>wscript := tl (wscript (st h)), rscript := tl (rscript (st h)),
                       sent := sent (st h) @ [''<POWERON>>'']\<rparr>),
      Returned (PList [], 0, ''''))
   \<and> setREBOOT st (Some h) =
     (st(h := (st h)\<lparr>wscript := tl (wscript (st h)), rscript := tl (rscript (st h)),
                       sent := sent (st h) @ [''<REBOOT>>'']\<rparr>),
      Returned (PList [], 0, ''''))"
  by (simp add: turnHeartbeatOn_def turnHeartbeatOFF_def setPOWEROFF_def setPOWERON_def
      setREBOOT_def serialCOMM_def zero_length_port byteformat_rec_def)

theorem C3_zero_length_ok_witness:
  "is_open chatty \<and> take 1 (wscript chatty) \<noteq> [WriteFails]
   \<and> take 1 (rscript chatty) \<noteq> [ReadFails]
   \<and> snd (setREBOOT (\<lambda>h. chatty) (Some 0)) = Returned (PList [], 0, '''')
   \<and> sent (fst (setREBOOT (\<lambda>h. chatty) (Some 0)) 0) = [''<REBOOT>>'']"
  using C3_zero_length_ok [of "\<lambda>h. chatty" 0]
  by (simp add: chatty_def)

subsection \<open>Decoding the count rate\<close>

lemma cps_arith:
  "(push_bit 8 (ord c0 AND 0x3f) OR ord c1) * 60 = ((ord c0 mod 64) * 256 + ord c1) * 60"
proof -
  have a: "ord c0 AND 0x3f = ord c0 mod 64"
    using take_bit_eq_mask [of 6 "ord c0"]
    by (simp add: take_bit_eq_mod mask_eq_exp_minus_1)
  have b: "take_bit 8 (ord c1) = ord c1"
    by (simp add: ord_def take_bit_eq_mod)
  have "push_bit 8 (ord c0 mod 64) OR take_bit 8 (ord c1)
        = take_bit 8 (ord c1) + push_bit 8 (ord c0 mod 64)"
    using concat_bit_def [of 8 "ord c1" "ord c0 mod 64"] concat_bit_eq [of 8 "ord c1" "ord c0 mod 64"]
    by (simp add: ac_simps)
  with a b show ?thesis by (simp add: push_bit_eq_mult)
qed

text \<open>
  Claim C4. When serialCOMM returns the two bytes \<open>c0\<close>, \<open>c1\<close> of a GETCPS reply
  under error code 0 or 1, getCPMS with \<^verbatim>\<open>CPMflag = False\<close> returns
  \<open>((c0 & 0x3f) << 8 | c1) * 60\<close>, which is \<open>((c0 mod 64) * 256 + c1) * 60\<close>: the top
  two bits of the first byte are dropped, the bytes combined most significant
  first, the result multiplied by 60. FF FF decodes to 982980, 80 1C to 1680.
\<close>

theorem C4_cps_decode:
  "(serialCOMM st ser ''<GETCPS>>'' 2 True
      = (st', Returned (PList [ord c0, ord c1], error, errmessage))
    \<and> (error = 0 \<or> error = 1) \<longrightarrow>
    getCPMS st ser False
      = (st', Returned (PInt ((push_bit 8 (ord c0 AND 0x3f) OR ord c1) * 60), error, errmessage)))
   \<and> (push_bit 8 (ord c0 AND 0x3f) OR ord c1) * 60 = ((ord c0 mod 64) * 256 + ord c1) * 60
   \<and> CPS_value (PList [0xFF, 0xFF]) = Inr 982980
   \<and> CPS_value (PList [0x80, 0x1C]) = Inr 1680"
proof (intro conjI impI)
  assume "serialCOMM st ser ''<GETCPS>>'' 2 True
      = (st', Returned (PList [ord c0, ord c1], error, errmessage))
    \<and> (error = 0 \<or> error = 1)"
  then show "getCPMS st ser False
      = (st', Returned (PInt ((push_bit 8 (ord c0 AND 0x3f) OR ord c1) * 60), error, errmessage))"
    by (auto simp: getCPMS_def CPS_value_def int_at_def item_def position_def andthen_def)
next
  show "(push_bit 8 (ord c0 AND 0x3f) OR ord c1) * 60 = ((ord c0 mod 64) * 256 + ord c1) * 60"
    by (rule cps_arith)
next
  show "CPS_value (PList [0xFF, 0xFF]) = Inr 982980"
    by (simp add: CPS_value_def int_at_def item_def position_def andthen_def)
next
  show "CPS_value (PList [0x80, 0x1C]) = Inr 1680"
    by (simp add: CPS_value_def int_at_def item_def position_def andthen_def)
qed

theorem C4_cps_decode_witness:
  "serialCOMM (\<lambda>h. cps_max) (Some 0) ''<GETCPS>>'' 2 True
     = ((\<lambda>h. cps_max)(0 := cps_max\<lparr>wscript := [], rscript := [], sent := [''<GETCPS>>'']\<rparr>),
        Returned (PList [ord (CHR 0xFF), ord (CHR 0xFF)], 0, ''''))
   \<and> getCPMS (\<lambda>h. cps_max) (Some 0) False
     = ((\<lambda>h. cps_max)(0 := cps_max\<lparr>wscript := [], rscript := [], sent := [''<GETCPS>>'']\<rparr>),
        Returned (PInt 982980, 0, ''''))"
proof -
  have reply: "serialCOMM (\<lambda>h. cps_max) (Some 0) ''<GETCPS>>'' 2 True
     = ((\<lambda>h. cps_max)(0 := cps_max\<lparr>wscript := [], rscript := [], sent := [''<GETCPS>>'']\<rparr>),
        Returned (PList [ord (CHR 0xFF), ord (CHR 0xFF)], 0, ''''))"
    by (simp add: serialCOMM_def full_first_read [where bs = "[CHR 0xFF, CHR 0xFF]" and rs = "[]"]
        cps_max_def byteformat_rec_def)
  with C4_cps_decode [of "\<lambda>h. cps_max" "Some 0"
      "(\<lambda>h. cps_max)(0 := cps_max\<lparr>wscript := [], rscript := [], sent := [''<GETCPS>>'']\<rparr>)"
      "CHR 0xFF" "CHR 0xFF" 0 "''''"]
  show ?thesis by (simp add: ord_def)
qed

section \<open>Length of the record and the subscripts of the decoders\<close>

lemma Serial_write_exn: "Serial_write p frame = (p1, Some e) \<Longrightarrow> e = SerialException"
  by (auto simp: Serial_write_def split: if_splits list.splits wevent.splits)

lemma Serial_read_exn: "Serial_read p n = (p2, Inl e) \<Longrightarrow> e = SerialException"
  by (auto simp: Serial_read_def split: if_splits list.splits revent.splits)

lemma retry_exits:
  "serialCOMM_retry p frame n msg count = (p', x) \<Longrightarrow>
   (case x of Break s m \<Rightarrow> length s = n
            | GiveUp r \<Rightarrow> fst r = PNone \<and> fst (snd r) = - 1
            | Propagates e \<Rightarrow> e = SerialException)"
proof (induction p frame n msg count arbitrary: p' x rule: serialCOMM_retry.induct)
  case (1 p sendtxt returnlength errmessage count)
  obtain p1 w where W: "Serial_write p sendtxt = (p1, w)" by fastforce
  obtain p2 r where R: "Serial_read p1 returnlength = (p2, r)" by fastforce
  note unfolded = "1.prems"(1) [unfolded serialCOMM_retry.simps [of p sendtxt returnlength errmessage count]]
  show ?case
  proof (cases w)
    case (Some e)
    with unfolded W have "x = Propagates e" by simp
    moreover from W Some have "e = SerialException" by (simp add: Serial_write_exn)
    ultimately show ?thesis by simp
  next
    case None
    show ?thesis
    proof (cases r)
      case (Inl e)
      with unfolded W None R have "x = Propagates e" by simp
      moreover from R Inl have "e = SerialException" by (simp add: Serial_read_exn)
      ultimately show ?thesis by simp
    next
      case (Inr bs)
      show ?thesis
      proof (cases "length bs = returnlength")
        case True
        with unfolded W None R Inr
        have "x = Break bs (errmessage @ ''; ok after '' @ str_nat count @ '' retry'')" by simp
        with True show ?thesis by simp
      next
        case ne: False
        show ?thesis
        proof (cases "countmax \<le> count + 1")
          case True
          with unfolded W None R Inr ne
          have "x = GiveUp (PNone, - 1,
                 ''serialCOMM: ERROR communicating  - giving up - is the baudrate set correctly?'')"
            by simp
          then show ?thesis by simp
        next
          case nc: False
          with unfolded W None R Inr ne
          have rec: "serialCOMM_retry p2 sendtxt returnlength errmessage (count + 1) = (p', x)"
            by simp
          from "1.IH" [OF W [symmetric] None R [symmetric] Inr ne nc rec] show ?thesis .
        qed
      qed
    qed
  qed
qed

lemma serialCOMM_port_payload:
  assumes "serialCOMM_port p frame n bf = (p', Returned (rec, error, msg))"
    and "error = 0 \<or> error = 1"
  shows "\<exists>s. length s = n \<and> rec = byteformat_rec bf s"
proof -
  obtain p1 w where W: "Serial_write p frame = (p1, w)" by fastforce
  obtain p2 rd where R: "Serial_read p1 n = (p2, rd)" by fastforce
  note Rc = Serial_read_cases [OF R]
  note unfolded = assms(1) [unfolded serialCOMM_port_def]
  show ?thesis
  proof (cases w)
    case (Some e)
    with unfolded W have "error = - 1" by simp
    with assms(2) show ?thesis by simp
  next
    case None
    show ?thesis
    proof (cases rd)
      case (Inl e)
      with unfolded W None R have "error = - 1" by simp
      with assms(2) show ?thesis by simp
    next
      case (Inr bs)
      show ?thesis
      proof (cases "length bs < n")
        case False
        with Rc Inr have "length bs = n" by simp
        moreover from unfolded W None R Inr False have "rec = byteformat_rec bf bs" by simp
        ultimately show ?thesis by blast
      next
        case True
        obtain p3 x where L: "serialCOMM_retry p2 frame n
            (''serialCOMM: ERROR: Record too short: Received bytes:''
               @ str_nat (length bs) @ '' < requested:'' @ str_nat n) 1 = (p3, x)"
          by fastforce
        note Lc = retry_exits [OF L]
        show ?thesis
        proof (cases x)
          case (Break s m)
          with unfolded W None R Inr True L have "rec = byteformat_rec bf s" by simp
          moreover from Lc Break have "length s = n" by simp
          ultimately show ?thesis by blast
        next
          case (GiveUp r)
          with unfolded W None R Inr True L have "r = (rec, error, msg)" by simp
          with Lc GiveUp have "error = - 1" by simp
          with assms(2) show ?thesis by simp
        next
          case (Propagates e)
          with unfolded W None R Inr True L show ?thesis by simp
        qed
      qed
    qed
  qed
qed

lemma serialCOMM_payload:
  assumes "serialCOMM st ser frame n bf = (st', Returned (rec, error, msg))"
    and "error = 0 \<or> error = 1"
  shows "\<exists>s. length s = n \<and> rec = byteformat_rec bf s"
proof (cases ser)
  case None
  with assms(1) have "error = - 1" by (simp add: serialCOMM_def)
  with assms(2) show ?thesis by simp
next
  case (Some h)
  obtain p' r where P: "serialCOMM_port (st h) frame n bf = (p', r)" by fastforce
  with assms(1) Some have "r = Returned (rec, error, msg)" by (simp add: serialCOMM_def)
  with P have "serialCOMM_port (st h) frame n bf = (p', Returned (rec, error, msg))" by simp
  then show ?thesis using assms(2) by (rule serialCOMM_port_payload)
qed

lemma int_at_in_range:
  "0 \<le> i \<Longrightarrow> i < int (length xs) \<Longrightarrow> int_at (PList xs) i = Inr (xs ! nat i)"
  by (simp add: int_at_def item_def position_def)

lemma nibble_bounds:
  fixes r :: int
  shows "0 \<le> drop_bit 4 (r AND 0xF0) \<and> drop_bit 4 (r AND 0xF0) < 16
         \<and> 0 \<le> r AND 0x0F \<and> r AND 0x0F < 16"
proof -
  define a where "a = r AND 0xF0"
  define b where "b = r AND 0x0F"
  have a: "0 \<le> a" "a \<le> 0xF0" unfolding a_def by (simp, rule AND_upper2, simp)
  have b: "0 \<le> b" "b \<le> 0x0F" unfolding b_def by (simp, rule AND_upper2, simp)
  from a have "0 \<le> a div 16" "a div 16 < 16" by presburger+
  with b show ?thesis unfolding a_def b_def by (simp add: drop_bit_eq_div)
qed

lemma hexlookup_high: "\<exists>c. item hexlookup (drop_bit 4 (r AND 0xF0)) = Inr c"
  using nibble_bounds [of r] by (simp add: item_def position_def hexlookup_def)

lemma hexlookup_low: "\<exists>c. item hexlookup (r AND 0x0F) = Inr c"
  using nibble_bounds [of r] by (simp add: item_def position_def hexlookup_def)

lemma getSERIAL_loop_in_range:
  "\<forall>i\<in>set ixs. 0 \<le> i \<and> i < int (length xs) \<Longrightarrow>
   \<exists>sn'. getSERIAL_loop (PList xs) ixs sn = Inr sn'"
proof (induction ixs arbitrary: sn)
  case Nil
  then show ?case by simp
next
  case (Cons i ixs)
  then have i: "int_at (PList xs) i = Inr (xs ! nat i)" by (simp add: int_at_in_range)
  obtain h1 where h1: "item hexlookup (drop_bit 4 (xs ! nat i AND 0xF0)) = Inr h1"
    using hexlookup_high by blast
  obtain h2 where h2: "item hexlookup (xs ! nat i AND 0x0F) = Inr h2"
    using hexlookup_low by blast
  from Cons.prems have "\<forall>i\<in>set ixs. 0 \<le> i \<and> i < int (length xs)" by simp
  from Cons.IH [OF this, of "sn @ [h1] @ [h2]"] i h1 h2 show ?case
    by (simp add: andthen_def)
qed

lemma decoders_2: "length xs = 2 \<Longrightarrow>
   (\<exists>v. CPM_value (PList xs) = Inr v) \<and> (\<exists>v. CPS_value (PList xs) = Inr v)"
  by (simp add: CPM_value_def CPS_value_def int_at_in_range andthen_def)

lemma decoders_1: "length xs = 1 \<Longrightarrow> \<exists>v. VOLT_value (PList xs) = Inr v"
  by (simp add: VOLT_value_def int_at_in_range andthen_def)

lemma decoders_4: "length xs = 4 \<Longrightarrow> \<exists>v. TEMP_value (PList xs) = Inr v"
  by (simp add: TEMP_value_def int_at_in_range andthen_def Let_def)

lemma datetime_new_not_IndexError: "datetime_new y m d hh mm ss \<noteq> Inl IndexError"
  by (simp add: datetime_new_def)

lemma decoders_7: "length xs = 7 \<Longrightarrow>
   (\<exists>v. SERIAL_value (PList xs) = Inr v) \<and> DATETIME_value (PList xs) \<noteq> Inl IndexError
   \<and> (\<exists>v. GYRO_value (PList xs) = Inr v)"
proof (intro conjI)
  assume l: "length xs = 7"
  then have "\<forall>i\<in>set (map int [0..<7]). 0 \<le> i \<and> i < int (length xs)" by auto
  from getSERIAL_loop_in_range [OF this] show "\<exists>v. SERIAL_value (PList xs) = Inr v"
    by (simp add: SERIAL_value_def)
  from l show "DATETIME_value (PList xs) \<noteq> Inl IndexError"
    by (simp add: DATETIME_value_def int_at_in_range andthen_def datetime_new_not_IndexError)
  from l show "\<exists>v. GYRO_value (PList xs) = Inr v"
    by (simp add: GYRO_value_def int_at_in_range andthen_def Let_def)
qed


lemma serialCOMM_port_raises:
  assumes "serialCOMM_port p frame n bf = (p', Raised e)"
  shows "e = SerialException"
proof -
  obtain p1 w where W: "Serial_write p frame = (p1, w)" by fastforce
  obtain p2 rd where R: "Serial_read p1 n = (p2, rd)" by fastforce
  note unfolded = assms [unfolded serialCOMM_port_def]
  show ?thesis
  proof (cases w)
    case (Some e')
    with unfolded W show ?thesis by simp
  next
    case None
    show ?thesis
    proof (cases rd)
      case (Inl e')
      with unfolded W None R show ?thesis by simp
    next
      case (Inr bs)
      show ?thesis
      proof (cases "length bs < n")
        case False
        with unfolded W None R Inr show ?thesis by simp
      next
        case True
        obtain p3 x where L: "serialCOMM_retry p2 frame n
            (''serialCOMM: ERROR: Record too short: Received bytes:''
               @ str_nat (length bs) @ '' < requested:'' @ str_nat n) 1 = (p3, x)"
          by fastforce
        note Lc = retry_exits [OF L]
        show ?thesis
        proof (cases x)
          case (Break s m)
          with unfolded W None R Inr True L show ?thesis by simp
        next
          case (GiveUp r)
          with unfolded W None R Inr True L show ?thesis by simp
        next
          case (Propagates e')
          with unfolded W None R Inr True L have "e = e'" by simp
          with Lc Propagates show ?thesis by simp
        qed
      qed
    qed
  qed
qed

lemma serialCOMM_raises:
  assumes "serialCOMM st ser frame n bf = (st', Raised e)"
  shows "e = SerialException"
proof (cases ser)
  case None
  with assms show ?thesis by (simp add: serialCOMM_def)
next
  case (Some h)
  obtain p' r where P: "serialCOMM_port (st h) frame n bf = (p', r)" by fastforce
  with assms Some have "r = Raised e" by (simp add: serialCOMM_def)
  with P have "serialCOMM_port (st h) frame n bf = (p', Raised e)" by simp
  then show ?thesis by (rule serialCOMM_port_raises)
qed

lemma serialCOMM_list:
  assumes "serialCOMM st ser frame n True = (st', Returned (rec, error, msg))"
    and "error = 0 \<or> error = 1"
  shows "\<exists>xs. length xs = n \<and> rec = PList xs"
proof -
  from serialCOMM_payload [OF assms] obtain s where "length s = n" "rec = byteformat_rec True s"
    by blast
  then have "length (map ord s) = n \<and> rec = PList (map ord s)"
    by (simp add: byteformat_rec_def)
  then show ?thesis by blast
qed

lemma getVOLT_no_IndexError: "snd (getVOLT st ser) \<noteq> Raised IndexError"
proof -
  obtain st' r where S: "serialCOMM st ser ''<GETVOLT>>'' 1 True = (st', r)" by fastforce
  show ?thesis
  proof (cases r)
    case (Raised e)
    with S serialCOMM_raises have "e = SerialException" by blast
    with S Raised show ?thesis by (simp add: getVOLT_def)
  next
    case (Returned t)
    obtain rec error msg where t: "t = (rec, error, msg)" by (cases t) auto
    show ?thesis
    proof (cases "error = 0 \<or> error = 1")
      case True
      from S Returned t have "serialCOMM st ser ''<GETVOLT>>'' 1 True = (st', Returned (rec, error, msg))"
        by simp
      from serialCOMM_list [OF this True] obtain xs where xs: "length xs = 1" "rec = PList xs" by blast
      with decoders_1 [of xs] obtain v where "VOLT_value rec = Inr v" by blast
      with S Returned t True show ?thesis by (simp add: getVOLT_def)
    next
      case False
      with S Returned t show ?thesis by (simp add: getVOLT_def)
    qed
  qed
qed


lemma getCPM_no_IndexError: "snd (getCPMS st ser True) \<noteq> Raised IndexError"
proof -
  obtain st' r where S: "serialCOMM st ser ''<GETCPM>>'' 2 True = (st', r)" by fastforce
  show ?thesis
  proof (cases r)
    case (Raised e)
    with S serialCOMM_raises have "e = SerialException" by blast
    with S Raised show ?thesis by (simp add: getCPMS_def)
  next
    case (Returned t)
    obtain rec error msg where t: "t = (rec, error, msg)" by (cases t) auto
    show ?thesis
    proof (cases "error = 0 \<or> error = 1")
      case True
      from S Returned t
      have "serialCOMM st ser ''<GETCPM>>'' 2 True = (st', Returned (rec, error, msg))"
        by simp
      from serialCOMM_list [OF this True] obtain xs where xs: "length xs = 2" "rec = PList xs"
        by blast
      with decoders_2 [of xs] obtain v where "CPM_value rec = Inr v" by blast
      with S Returned t True show ?thesis by (simp add: getCPMS_def)
    next
      case False
      with S Returned t show ?thesis by (simp add: getCPMS_def)
    qed
  qed
qed

lemma getCPS_no_IndexError: "snd (getCPMS st ser False) \<noteq> Raised IndexError"
proof -
  obtain st' r where S: "serialCOMM st ser ''<GETCPS>>'' 2 True = (st', r)" by fastforce
  show ?thesis
  proof (cases r)
    case (Raised e)
    with S serialCOMM_raises have "e = SerialException" by blast
    with S Raised show ?thesis by (simp add: getCPMS_def)
  next
    case (Returned t)
    obtain rec error msg where t: "t = (rec, error, msg)" by (cases t) auto
    show ?thesis
    proof (cases "error = 0 \<or> error = 1")
      case True
      from S Returned t
      have "serialCOMM st ser ''<GETCPS>>'' 2 True = (st', Returned (rec, error, msg))"
        by simp
      from serialCOMM_list [OF this True] obtain xs where xs: "length xs = 2" "rec = PList xs"
        by blast
      with decoders_2 [of xs] obtain v where "CPS_value rec = Inr v" by blast
      with S Returned t True show ?thesis by (simp add: getCPMS_def)
    next
      case False
      with S Returned t show ?thesis by (simp add: getCPMS_def)
    qed
  qed
qed

lemma getSERIAL_no_IndexError: "snd (getSERIAL st ser) \<noteq> Raised IndexError"
proof -
  obtain st' r where S: "serialCOMM st ser ''<GETSERIAL>>'' 7 True = (st', r)" by fastforce
  show ?thesis
  proof (cases r)
    case (Raised e)
    with S serialCOMM_raises have "e = SerialException" by blast
    with S Raised show ?thesis by (simp add: getSERIAL_def)
  next
    case (Returned t)
    obtain rec error msg where t: "t = (rec, error, msg)" by (cases t) auto
    show ?thesis
    proof (cases "error = 0 \<or> error = 1")
      case True
      from S Returned t
      have "serialCOMM st ser ''<GETSERIAL>>'' 7 True = (st', Returned (rec, error, msg))"
        by simp
      from serialCOMM_list [OF this True] obtain xs where xs: "length xs = 7" "rec = PList xs"
        by blast
      with decoders_7 [of xs] obtain v where "SERIAL_value rec = Inr v" by blast
      with S Returned t True show ?thesis by (simp add: getSERIAL_def)
    next
      case False
      with S Returned t show ?thesis by (simp add: getSERIAL_def)
    qed
  qed
qed

lemma getTEMP_no_IndexError: "snd (getTEMP st ser) \<noteq> Raised IndexError"
proof -
  obtain st' r where S: "serialCOMM st ser ''<GETTEMP>>'' 4 True = (st', r)" by fastforce
  show ?thesis
  proof (cases r)
    case (Raised e)
    with S serialCOMM_raises have "e = SerialException" by blast
    with S Raised show ?thesis by (simp add: getTEMP_def)
  next
    case (Returned t)
    obtain rec error msg where t: "t = (rec, error, msg)" by (cases t) auto
    show ?thesis
    proof (cases "error = 0 \<or> error = 1")
      case True
      from S Returned t
      have "serialCOMM st ser ''<GETTEMP>>'' 4 True = (st', Returned (rec, error, msg))"
        by simp
      from serialCOMM_list [OF this True] obtain xs where xs: "length xs = 4" "rec = PList xs"
        by blast
      with decoders_4 [of xs] obtain v where "TEMP_value rec = Inr v" by blast
      with S Returned t True show ?thesis by (simp add: getTEMP_def)
    next
      case False
      with S Returned t show ?thesis by (simp add: getTEMP_def)
    qed
  qed
qed

lemma getGYRO_no_IndexError: "snd (getGYRO st ser) \<noteq> Raised IndexError"
proof -
  obtain st' r where S: "serialCOMM st ser ''<GETGYRO>>'' 7 True = (st', r)" by fastforce
  show ?thesis
  proof (cases r)
    case (Raised e)
    with S serialCOMM_raises have "e = SerialException" by blast
    with S Raised show ?thesis by (simp add: getGYRO_def)
  next
    case (Returned t)
    obtain rec error msg where t: "t = (rec, error, msg)" by (cases t) auto
    show ?thesis
    proof (cases "error = 0 \<or> error = 1")
      case True
      from S Returned t
      have "serialCOMM st ser ''<GETGYRO>>'' 7 True = (st', Returned (rec, error, msg))"
        by simp
      from serialCOMM_list [OF this True] obtain xs where xs: "length xs = 7" "rec = PList xs"
        by blast
      with decoders_7 [of xs] obtain v where "GYRO_value rec = Inr v" by blast
      with S Returned t True show ?thesis by (simp add: getGYRO_def)
    next
      case False
      with S Returned t show ?thesis by (simp add: getGYRO_def)
    qed
  qed
qed

lemma getDATETIME_no_IndexError: "snd (getDATETIME st ser) \<noteq> Raised IndexError"
proof -
  obtain st' r where S: "serialCOMM st ser ''<GETDATETIME>>'' 7 True = (st', r)" by fastforce
  show ?thesis
  proof (cases r)
    case (Raised e)
    with S serialCOMM_raises have "e = SerialException" by blast
    with S Raised show ?thesis by (simp add: getDATETIME_def)
  next
    case (Returned t)
    obtain rec error msg where t: "t = (rec, error, msg)" by (cases t) auto
    have "len rec \<noteq> Inl IndexError" by (cases rec) (simp_all add: len_def)
    with S Returned t show ?thesis
      by (auto simp: getDATETIME_def split: sum.splits)
  qed
qed

text \<open>
  Claim C10. Whenever serialCOMM returns error code 0 or 1, the record holds exactly
  \<^verbatim>\<open>returnlength\<close> bytes. So each decoding expression, on the record of the length
  its command asks for (2 for CPM and CPS, 1 for the voltage, 7 for serial number,
  date-time and gyro, 4 for the temperature), raises no IndexError, and none of the
  six commands does.
\<close>

theorem C10_payload_length:
  "(serialCOMM st ser sendtxt returnlength byteformat = (st', Returned (rec, error, errmessage))
      \<and> (error = 0 \<or> error = 1) \<longrightarrow>
      len rec = Inr returnlength
      \<and> (byteformat \<and> returnlength = 2 \<longrightarrow>
            CPM_value rec \<noteq> Inl IndexError \<and> CPS_value rec \<noteq> Inl IndexError)
      \<and> (byteformat \<and> returnlength = 1 \<longrightarrow> VOLT_value rec \<noteq> Inl IndexError)
      \<and> (byteformat \<and> returnlength = 7 \<longrightarrow>
            SERIAL_value rec \<noteq> Inl IndexError \<and> DATETIME_value rec \<noteq> Inl IndexError
            \<and> GYRO_value rec \<noteq> Inl IndexError)
      \<and> (byteformat \<and> returnlength = 4 \<longrightarrow> TEMP_value rec \<noteq> Inl IndexError))
   \<and> snd (getCPMS st ser CPMflag) \<noteq> Raised IndexError
   \<and> snd (getVOLT st ser) \<noteq> Raised IndexError
   \<and> snd (getSERIAL st ser) \<noteq> Raised IndexError
   \<and> snd (getDATETIME st ser) \<noteq> Raised IndexError
   \<and> snd (getTEMP st ser) \<noteq> Raised IndexError
   \<and> snd (getGYRO st ser) \<noteq> Raised IndexError"
proof -
  have first: "len rec = Inr returnlength
      \<and> (byteformat \<and> returnlength = 2 \<longrightarrow>
            CPM_value rec \<noteq> Inl IndexError \<and> CPS_value rec \<noteq> Inl IndexError)
      \<and> (byteformat \<and> returnlength = 1 \<longrightarrow> VOLT_value rec \<noteq> Inl IndexError)
      \<and> (byteformat \<and> returnlength = 7 \<longrightarrow>
            SERIAL_value rec \<noteq> Inl IndexError \<and> DATETIME_value rec \<noteq> Inl IndexError
            \<and> GYRO_value rec \<noteq> Inl IndexError)
      \<and> (byteformat \<and> returnlength = 4 \<longrightarrow> TEMP_value rec \<noteq> Inl IndexError)"
    if S: "serialCOMM st ser sendtxt returnlength byteformat = (st', Returned (rec, error, errmessage))"
      and E: "error = 0 \<or> error = 1"
  proof -
    from serialCOMM_payload [OF S E] obtain s
      where s: "length s = returnlength" "rec = byteformat_rec byteformat s" by blast
    then have l: "len rec = Inr returnlength" by (simp add: byteformat_rec_def len_def)
    have d: "length (map ord s) = returnlength" using s by simp
    have r: "byteformat \<Longrightarrow> rec = PList (map ord s)" using s by (simp add: byteformat_rec_def)
    have d2: "byteformat \<and> returnlength = 2 \<longrightarrow>
            CPM_value rec \<noteq> Inl IndexError \<and> CPS_value rec \<noteq> Inl IndexError"
      using decoders_2 [of "map ord s"] d r by auto
    have d1: "byteformat \<and> returnlength = 1 \<longrightarrow> VOLT_value rec \<noteq> Inl IndexError"
      using decoders_1 [of "map ord s"] d r by auto
    have d7: "byteformat \<and> returnlength = 7 \<longrightarrow>
            SERIAL_value rec \<noteq> Inl IndexError \<and> DATETIME_value rec \<noteq> Inl IndexError
            \<and> GYRO_value rec \<noteq> Inl IndexError"
      using decoders_7 [of "map ord s"] d r by auto
    have d4: "byteformat \<and> returnlength = 4 \<longrightarrow> TEMP_value rec \<noteq> Inl IndexError"
      using decoders_4 [of "map ord s"] d r by auto
    from l d2 d1 d7 d4 show ?thesis by blast
  qed
  have cpms: "snd (getCPMS st ser CPMflag) \<noteq> Raised IndexError"
    using getCPM_no_IndexError [of st ser] getCPS_no_IndexError [of st ser] by (cases CPMflag) simp_all
  from first cpms getVOLT_no_IndexError [of st ser] getSERIAL_no_IndexError [of st ser]
    getDATETIME_no_IndexError [of st ser] getTEMP_no_IndexError [of st ser]
    getGYRO_no_IndexError [of st ser]
  show ?thesis by blast
qed

lemma clock_reply:
  "serialCOMM (\<lambda>h. clock) (Some 0) ''<GETDATETIME>>'' 7 True
     = ((\<lambda>h. clock)(0 := clock\<lparr>wscript := [], rscript := [], sent := [''<GETDATETIME>>'']\<rparr>),
        Returned (PList [17, 12, 31, 14, 3, 19, 0], 0, ''''))"
  by (simp add: serialCOMM_def clock_def byteformat_rec_def ord_def
      full_first_read [where bs = "[CHR 0x11, CHR 0x0C, CHR 0x1F, CHR 0x0E, CHR 0x03, CHR 0x13, CHR 0x00]"
        and rs = "[]"])

theorem C10_payload_length_witness:
  "serialCOMM (\<lambda>h. clock) (Some 0) ''<GETDATETIME>>'' 7 True
     = ((\<lambda>h. clock)(0 := clock\<lparr>wscript := [], rscript := [], sent := [''<GETDATETIME>>'']\<rparr>),
        Returned (PList [17, 12, 31, 14, 3, 19, 0], 0, ''''))
   \<and> len (PList [17, 12, 31, 14, 3, 19, 0]) = Inr 7
   \<and> SERIAL_value (PList [17, 12, 31, 14, 3, 19, 0]) \<noteq> Inl IndexError
   \<and> DATETIME_value (PList [17, 12, 31, 14, 3, 19, 0]) \<noteq> Inl IndexError
   \<and> GYRO_value (PList [17, 12, 31, 14, 3, 19, 0]) \<noteq> Inl IndexError"
  using C10_payload_length [of "\<lambda>h. clock" "Some 0" "''<GETDATETIME>>''" 7 True
      "(\<lambda>h. clock)(0 := clock\<lparr>wscript := [], rscript := [], sent := [''<GETDATETIME>>'']\<rparr>)"
      "PList [17, 12, 31, 14, 3, 19, 0]" 0 "''''"] clock_reply
  by simp

section \<open>Decoding date and time\<close>

lemma ord_range: "0 \<le> ord c \<and> ord c < 256"
proof -
  have "ord c mod 256 = ord c" by (simp add: ord_def)
  moreover have "0 \<le> ord c mod 256" "ord c mod 256 < 256" by simp_all
  ultimately show ?thesis by simp
qed

lemma days_in_month_cases:
  assumes "1 \<le> m" "m \<le> 12"
  shows "d \<le> days_in_month y m \<longleftrightarrow>
         (d \<le> 28
         \<or> d = 29 \<and> (m \<noteq> 2 \<or> y mod 4 = 0 \<and> (y mod 100 \<noteq> 0 \<or> y mod 400 = 0))
         \<or> d = 30 \<and> m \<noteq> 2
         \<or> d = 31 \<and> m \<in> {1, 3, 5, 7, 8, 10, 12})"
proof -
  from assms have "m = 1 \<or> m = 2 \<or> m = 3 \<or> m = 4 \<or> m = 5 \<or> m = 6 \<or> m = 7 \<or> m = 8
      \<or> m = 9 \<or> m = 10 \<or> m = 11 \<or> m = 12" by arith
  then show ?thesis
    by (elim disjE) (auto simp: days_in_month_def is_leap_def)
qed

lemma datetime_new_calendar:
  assumes "1 \<le> y" "y \<le> 9999"
  shows "datetime_new y m d hh mm ss =
     (if calendar_date_time y m d hh mm ss
      then Inr \<lparr>year = y, month = m, day = d, hour = hh, minute = mm, second = ss\<rparr>
      else Inl ValueError)"
proof -
  define Q where "Q \<longleftrightarrow> (d \<le> 28
         \<or> d = 29 \<and> (m \<noteq> 2 \<or> y mod 4 = 0 \<and> (y mod 100 \<noteq> 0 \<or> y mod 400 = 0))
         \<or> d = 30 \<and> m \<noteq> 2
         \<or> d = 31 \<and> m \<in> {1, 3, 5, 7, 8, 10, 12})"
  define T where "T \<longleftrightarrow> 0 \<le> hh \<and> hh \<le> 23 \<and> 0 \<le> mm \<and> mm \<le> 59 \<and> 0 \<le> ss \<and> ss \<le> 59"
  have cal: "calendar_date_time y m d hh mm ss \<longleftrightarrow> 1 \<le> m \<and> m \<le> 12 \<and> 1 \<le> d \<and> Q \<and> T"
    unfolding calendar_date_time_def Q_def T_def by (rule refl)
  have new: "datetime_new y m d hh mm ss =
     (if \<not> (1 \<le> m \<and> m \<le> 12) then Inl ValueError
      else if \<not> (1 \<le> d \<and> d \<le> days_in_month y m) then Inl ValueError
      else if \<not> T then Inl ValueError
      else Inr \<lparr>year = y, month = m, day = d, hour = hh, minute = mm, second = ss\<rparr>)"
    using assms unfolding datetime_new_def T_def by simp
  show ?thesis
  proof (cases "1 \<le> m \<and> m \<le> 12")
    case True
    then have m: "1 \<le> m" "m \<le> 12" by simp_all
    have "d \<le> days_in_month y m \<longleftrightarrow> Q"
      unfolding Q_def by (rule days_in_month_cases [OF m])
    with True show ?thesis unfolding new cal by simp
  next
    case False
    then show ?thesis unfolding new cal by auto
  qed
qed

lemma DATETIME_value_bytes:
  "DATETIME_value (PList (map ord [YY, MM, DD, hh, mm, ss, trailer])) =
     (if calendar_date_time (ord YY + 2000) (ord MM) (ord DD) (ord hh) (ord mm) (ord ss)
      then Inr \<lparr>year = ord YY + 2000, month = ord MM, day = ord DD, hour = ord hh,
                minute = ord mm, second = ord ss\<rparr>
      else Inl ValueError)"
proof -
  from ord_range [of YY] have "1 \<le> ord YY + 2000" "ord YY + 2000 \<le> 9999" by simp_all
  from datetime_new_calendar [OF this] show ?thesis
    by (simp add: DATETIME_value_def int_at_in_range andthen_def)
qed

text \<open>
  Claim C8. When serialCOMM returns the seven bytes YY, MM, DD, hh, mm, ss and a
  trailer under error code 0 or 1: if the fields are a valid calendar date-time,
  getDATETIME returns the timestamp with year YY + 2000 and the error code and
  message of serialCOMM; if they are not, it returns the fake date
  "2099-09-09 09:09:09" with error code -1 and an error message, and raises nothing.
\<close>

theorem C8_datetime_decode:
  "serialCOMM st ser ''<GETDATETIME>>'' 7 True
      = (st', Returned (PList (map ord [YY, MM, DD, hh, mm, ss, trailer]), error, errmessage))
    \<and> (error = 0 \<or> error = 1) \<longrightarrow>
    (calendar_date_time (ord YY + 2000) (ord MM) (ord DD) (ord hh) (ord mm) (ord ss) \<longrightarrow>
       getDATETIME st ser
         = (st', Returned (PDate \<lparr>year = ord YY + 2000, month = ord MM, day = ord DD,
                                   hour = ord hh, minute = ord mm, second = ord ss\<rparr>,
                           error, errmessage)))
    \<and> (\<not> calendar_date_time (ord YY + 2000) (ord MM) (ord DD) (ord hh) (ord mm) (ord ss) \<longrightarrow>
       getDATETIME st ser
         = (st', Returned (PStr ''2099-09-09 09:09:09'', - 1,
                           ''ERROR getting Date & Time from device'')))"
  using DATETIME_value_bytes [of YY MM DD hh mm ss trailer]
  by (auto simp: getDATETIME_def len_def)


lemma clock_month_13_reply:
  "serialCOMM (\<lambda>h. clock_month_13) (Some 0) ''<GETDATETIME>>'' 7 True
     = ((\<lambda>h. clock_month_13)(0 := clock_month_13\<lparr>wscript := [], rscript := [],
            sent := [''<GETDATETIME>>'']\<rparr>),
        Returned (PList [17, 13, 31, 14, 3, 19, 0], 0, ''''))"
  by (simp add: serialCOMM_def clock_month_13_def byteformat_rec_def ord_def
      full_first_read [where bs = "[CHR 0x11, CHR 0x0D, CHR 0x1F, CHR 0x0E, CHR 0x03, CHR 0x13, CHR 0x00]"
        and rs = "[]"])

theorem C8_datetime_decode_witness:
  "calendar_date_time 2017 12 31 14 3 19
   \<and> getDATETIME (\<lambda>h. clock) (Some 0)
     = ((\<lambda>h. clock)(0 := clock\<lparr>wscript := [], rscript := [], sent := [''<GETDATETIME>>'']\<rparr>),
        Returned (PDate \<lparr>year = 2017, month = 12, day = 31, hour = 14, minute = 3, second = 19\<rparr>,
                  0, ''''))
   \<and> \<not> calendar_date_time 2017 13 31 14 3 19
   \<and> getDATETIME (\<lambda>h. clock_month_13) (Some 0)
     = ((\<lambda>h. clock_month_13)(0 := clock_month_13\<lparr>wscript := [], rscript := [],
            sent := [''<GETDATETIME>>'']\<rparr>),
        Returned (PStr ''2099-09-09 09:09:09'', - 1, ''ERROR getting Date & Time from device''))"
  using C8_datetime_decode [of "\<lambda>h. clock" "Some 0"
      "(\<lambda>h. clock)(0 := clock\<lparr>wscript := [], rscript := [], sent := [''<GETDATETIME>>'']\<rparr>)"
      "CHR 0x11" "CHR 0x0C" "CHR 0x1F" "CHR 0x0E" "CHR 0x03" "CHR 0x13" "CHR 0x00" 0 "''''"]
    C8_datetime_decode [of "\<lambda>h. clock_month_13" "Some 0"
      "(\<lambda>h. clock_month_13)(0 := clock_month_13\<lparr>wscript := [], rscript := [],
            sent := [''<GETDATETIME>>'']\<rparr>)"
      "CHR 0x11" "CHR 0x0D" "CHR 0x1F" "CHR 0x0E" "CHR 0x03" "CHR 0x13" "CHR 0x00" 0 "''''"]
    clock_reply clock_month_13_reply
  by (simp add: calendar_date_time_def ord_def)

section \<open>The save-data mode\<close>

lemma getSaveDataType_at_length:
  assumes "item cfg (cfgOffsetSDT gg) = Inr (int (length (savedatatypes gg)))"
  shows "getSaveDataType gg cfg =
     Inr (int (length (savedatatypes gg)),
          ''Error in getSaveDataType, undefined type: '' @ str_int (int (length (savedatatypes gg))))"
  using assms by (simp add: getSaveDataType_def andthen_def item_def position_def Let_def)

lemma save_byte: "item (replicate 32 0 @ b # replicate 223 255) 32 = Inr b"
  by (simp add: item_def position_def nth_append)

text \<open>
  Claim C9. The guard \<^verbatim>\<open>sdt <= len(sdttxt)\<close> lets the index equal to the length of
  the table through: the subscript raises IndexError and the \<^verbatim>\<open>except\<close> branch gives
  the text "Error in getSaveDataType, undefined type: 4", not the "Unknown" label
  that the larger indices get. With the four-entry table: index 4, index 5, index 3.
\<close>

theorem C9_index_at_table_length:
  "getSaveDataType gglobs_300E (replicate 32 0 @ [4] @ replicate 223 255)
     = Inr (4, ''Error in getSaveDataType, undefined type: 4'')
   \<and> getSaveDataType gglobs_300E (replicate 32 0 @ [5] @ replicate 223 255)
     = Inr (5, ''Unknown SaveDataType: 5'')
   \<and> getSaveDataType gglobs_300E (replicate 32 0 @ [3] @ replicate 223 255)
     = Inr (3, ''CPM, save hourly average'')"
  apply (simp add: getSaveDataType_def andthen_def save_byte Let_def gglobs_300E_def)
  apply (simp add: item_def position_def str_int_def)
  done
section \<open>The memory-read command\<close>

lemma be2:
  fixes a :: int
  shows "(a div 256 mod 256) * 256 + a mod 256 = a mod 65536"
proof -
  have "a mod (256 * 256) = 256 * (a div 256 mod 256) + a mod 256"
    by (rule zmod_zmult2_eq) simp
  then show ?thesis by simp
qed

lemma be3:
  fixes a :: int
  shows "(a div 65536 mod 256) * 65536 + (a div 256 mod 256) * 256 + a mod 256 = a mod 16777216"
proof -
  have "a mod (65536 * 256) = 65536 * (a div 65536 mod 256) + a mod 65536"
    by (rule zmod_zmult2_eq) simp
  moreover have "(65536 :: int) * 256 = 16777216" by simp
  ultimately have "a mod 16777216 = 65536 * (a div 65536 mod 256) + a mod 65536"
    by (simp only:)
  with be2 [of a] show ?thesis by linarith
qed

lemma be_value_bytes2:
  "be_value (map ord [char_of (x::int), char_of (y::int)]) = (x mod 256) * 256 + y mod 256"
  by (simp add: be_value_def ord_def)

lemma be_value_bytes3:
  "be_value (map ord [char_of (x::int), char_of (y::int), char_of (z::int)])
    = (x mod 256) * 65536 + (y mod 256) * 256 + z mod 256"
  by (simp add: be_value_def ord_def)

lemma pack_H_bytes:
  "0 \<le> v \<Longrightarrow> v < 65536 \<Longrightarrow>
   pack_H v = Inr [char_of (v div 256 mod 256), char_of (v mod 256)]"
  by (simp add: pack_H_def)

lemma pack_I_bytes:
  "0 \<le> v \<Longrightarrow> v < 4294967296 \<Longrightarrow>
   pack_I v = Inr [char_of (v div 16777216 mod 256), char_of (v div 65536 mod 256),
                   char_of (v div 256 mod 256), char_of (v mod 256)]"
  by (simp add: pack_I_def)

lemma pack_H_value:
  assumes "0 \<le> v" "v < 65536"
  shows "\<exists>dl. length dl = 2 \<and> pack_H v = Inr dl \<and> be_value (map ord dl) = v"
proof -
  let ?dl = "[char_of (v div 256 mod 256), char_of (v mod 256)]"
  have "be_value (map ord ?dl) = (v div 256 mod 256 mod 256) * 256 + v mod 256 mod 256"
    by (rule be_value_bytes2)
  also have "\<dots> = (v div 256 mod 256) * 256 + v mod 256"
    by (simp only: mod_mod_trivial)
  also have "\<dots> = v mod 65536" by (rule be2)
  also from assms have "\<dots> = v" by (rule mod_pos_pos_trivial)
  finally have "be_value (map ord ?dl) = v" .
  moreover have "length ?dl = 2" by simp
  moreover from assms have "pack_H v = Inr ?dl" by (rule pack_H_bytes)
  ultimately show ?thesis by blast
qed

lemma pack_I_value:
  assumes "0 \<le> v" "v < 4294967296"
  shows "\<exists>ad4. length (tl ad4) = 3 \<and> pack_I v = Inr ad4
           \<and> be_value (map ord (tl ad4)) = v mod 16777216"
proof -
  let ?ad = "[char_of (v div 65536 mod 256), char_of (v div 256 mod 256), char_of (v mod 256)]"
  have "be_value (map ord ?ad)
        = (v div 65536 mod 256 mod 256) * 65536 + (v div 256 mod 256 mod 256) * 256
          + v mod 256 mod 256"
    by (rule be_value_bytes3)
  also have "\<dots> = (v div 65536 mod 256) * 65536 + (v div 256 mod 256) * 256 + v mod 256"
    by (simp only: mod_mod_trivial)
  also have "\<dots> = v mod 16777216" by (rule be3)
  finally have "be_value (map ord ?ad) = v mod 16777216" .
  moreover have "length ?ad = 3" by simp
  moreover from assms have "pack_I v = Inr (char_of (v div 16777216 mod 256) # ?ad)"
    by (rule pack_I_bytes)
  moreover have "tl (char_of (v div 16777216 mod 256) # ?ad) = ?ad" by (rule list.sel)
  ultimately show ?thesis by metis
qed

text \<open>
  Claim C6. For an address that fits four bytes and a length field \<open>L\<close> that fits
  two, the command written by getSPIR is "<SPIR", three address bytes, two length
  bytes and ">>". The address bytes spell the address (without its fourth byte),
  most significant first; the length bytes spell \<open>L\<close>, which is the requested length
  minus one unless \<^verbatim>\<open>gglobs.devicesIndex\<close> is 3, and then the requested length itself.
  The numbers are 2^32, 2^24 and 2^16.
\<close>

theorem C6_spir_frame:
  "0 \<le> address \<and> address < 4294967296
   \<and> L = (if devicesIndex gg = 3 then datalength else datalength - 1)
   \<and> 0 \<le> L \<and> L < 65536 \<longrightarrow>
   (\<exists>ad dl. length ad = 3 \<and> length dl = 2
      \<and> SPIR_command gg address datalength = Inr (''<SPIR'' @ ad @ dl @ ''>>'')
      \<and> be_value (map ord ad) = address mod 16777216
      \<and> be_value (map ord dl) = L
      \<and> getSPIR gg st ser address datalength
          = serialCOMM st ser (''<SPIR'' @ ad @ dl @ ''>>'') (nat datalength) False)"
proof
  assume h: "0 \<le> address \<and> address < 4294967296
   \<and> L = (if devicesIndex gg = 3 then datalength else datalength - 1)
   \<and> 0 \<le> L \<and> L < 65536"
  then obtain ad4 where ad: "length (tl ad4) = 3" "pack_I address = Inr ad4"
      "be_value (map ord (tl ad4)) = address mod 16777216"
    using pack_I_value [of address] by blast
  from h obtain dl where dl: "length dl = 2" "pack_H L = Inr dl" "be_value (map ord dl) = L"
    using pack_H_value [of L] by blast
  from h dl have "(if devicesIndex gg = 3 then pack_H datalength else pack_H (datalength - 1)) = Inr dl"
    by (simp split: if_splits)
  with ad have cmd: "SPIR_command gg address datalength = Inr (''<SPIR'' @ tl ad4 @ dl @ ''>>'')"
    by (simp add: SPIR_command_def andthen_def)
  then have "getSPIR gg st ser address datalength
          = serialCOMM st ser (''<SPIR'' @ tl ad4 @ dl @ ''>>'') (nat datalength) False"
    by (simp add: getSPIR_def)
  with ad dl cmd show "\<exists>ad dl. length ad = 3 \<and> length dl = 2
      \<and> SPIR_command gg address datalength = Inr (''<SPIR'' @ ad @ dl @ ''>>'')
      \<and> be_value (map ord ad) = address mod 16777216
      \<and> be_value (map ord dl) = L
      \<and> getSPIR gg st ser address datalength
          = serialCOMM st ser (''<SPIR'' @ ad @ dl @ ''>>'') (nat datalength) False"
    by blast
qed

theorem C6_spir_frame_witness:
  "(0::int) \<le> 74565 \<and> (74565::int) < 4294967296 \<and> devicesIndex gglobs_300E \<noteq> 3
   \<and> (\<exists>ad dl. length ad = 3 \<and> length dl = 2
        \<and> SPIR_command gglobs_300E 74565 4096 = Inr (''<SPIR'' @ ad @ dl @ ''>>'')
        \<and> be_value (map ord ad) = 74565 \<and> be_value (map ord dl) = 4095)
   \<and> (\<exists>ad dl. length ad = 3 \<and> length dl = 2
        \<and> SPIR_command (gglobs_300E\<lparr>devicesIndex := 3\<rparr>) 74565 4096
            = Inr (''<SPIR'' @ ad @ dl @ ''>>'')
        \<and> be_value (map ord ad) = 74565 \<and> be_value (map ord dl) = 4096)"
proof -
  have m: "(74565::int) mod 16777216 = 74565" by simp
  have a: "\<exists>ad dl. length ad = 3 \<and> length dl = 2
        \<and> SPIR_command gglobs_300E 74565 4096 = Inr (''<SPIR'' @ ad @ dl @ ''>>'')
        \<and> be_value (map ord ad) = 74565 \<and> be_value (map ord dl) = 4095"
    using C6_spir_frame [of 74565 4095 gglobs_300E 4096 "\<lambda>h. chatty" None]
    unfolding m by (simp add: gglobs_300E_def) blast
  have b: "\<exists>ad dl. length ad = 3 \<and> length dl = 2
        \<and> SPIR_command (gglobs_300E\<lparr>devicesIndex := 3\<rparr>) 74565 4096
            = Inr (''<SPIR'' @ ad @ dl @ ''>>'')
        \<and> be_value (map ord ad) = 74565 \<and> be_value (map ord dl) = 4096"
    using C6_spir_frame [of 74565 4096 "gglobs_300E\<lparr>devicesIndex := 3\<rparr>" 4096 "\<lambda>h. chatty" None]
    unfolding m by simp blast
  from a b show ?thesis by (simp add: gglobs_300E_def)
qed

section \<open>Calibration points\<close>

lemma chr_cfg_byte:
  assumes "0 \<le> i" "i < int (length cfg)" "\<forall>c\<in>set cfg. 0 \<le> c \<and> c < 256"
  shows "chr_cfg cfg i = Inr (char_of (cfg ! nat i)) \<and> ord (char_of (cfg ! nat i)) = cfg ! nat i
         \<and> 0 \<le> cfg ! nat i \<and> cfg ! nat i < 256"
proof -
  from assms have "cfg ! nat i \<in> set cfg" by simp
  with assms have r: "0 \<le> cfg ! nat i" "cfg ! nat i < 256" by simp_all
  then have "cfg ! nat i mod 256 = cfg ! nat i" by (rule mod_pos_pos_trivial)
  then have "ord (char_of (cfg ! nat i)) = cfg ! nat i" by (simp add: ord_def)
  moreover from assms r have "chr_cfg cfg i = Inr (char_of (cfg ! nat i))"
    by (simp add: chr_cfg_def item_def position_def andthen_def chr_def)
  ultimately show ?thesis using r by simp
qed

lemma cal_CPM_at_value:
  assumes "0 \<le> i" "i + 1 < int (length cfg)" "\<forall>c\<in>set cfg. 0 \<le> c \<and> c < 256"
  shows "cal_CPM_at cfg i = Inr (be_value [cfg ! nat i, cfg ! nat (i + 1)])"
proof -
  from assms have a: "0 \<le> i" "i < int (length cfg)" and b: "0 \<le> i + 1" "i + 1 < int (length cfg)"
    by simp_all
  from chr_cfg_byte [OF a assms(3)] chr_cfg_byte [OF b assms(3)]
  show ?thesis by (simp add: cal_CPM_at_def andthen_def unpack_H_def be_value_def)
qed

lemma four_bytes_range:
  fixes a b c d :: int
  assumes "0 \<le> a" "a < 256" "0 \<le> b" "b < 256" "0 \<le> c" "c < 256" "0 \<le> d" "d < 256"
  shows "uint (word_of_int (a * 16777216 + b * 65536 + c * 256 + d) :: 32 word)
         = a * 16777216 + b * 65536 + c * 256 + d"
proof -
  from assms have "0 \<le> a * 16777216 + b * 65536 + c * 256 + d" by linarith
  moreover from assms have "a * 16777216 + b * 65536 + c * 256 + d < 4294967296" by linarith
  ultimately have "(a * 16777216 + b * 65536 + c * 256 + d) mod 4294967296
                   = a * 16777216 + b * 65536 + c * 256 + d"
    by (rule mod_pos_pos_trivial)
  moreover have "uint (word_of_int (a * 16777216 + b * 65536 + c * 256 + d) :: 32 word)
     = (a * 16777216 + b * 65536 + c * 256 + d) mod 4294967296"
    by (simp only: uint_word_of_int) simp
  ultimately show ?thesis by (rule trans [rotated])
qed


lemma be_value_4: "be_value [a, b, c, d] = a * 16777216 + b * 65536 + c * 256 + d"
  by (simp add: be_value_def)

lemma cal_uSv_at_value:
  assumes "0 \<le> i" "i + 3 < int (length cfg)" "\<forall>c\<in>set cfg. 0 \<le> c \<and> c < 256"
  shows "\<exists>w. cal_uSv_at ''>f'' cfg i = Inr (FSingle w)
           \<and> uint w = be_value [cfg ! nat i, cfg ! nat (i + 1), cfg ! nat (i + 2), cfg ! nat (i + 3)]"
    and "\<exists>w. cal_uSv_at ''<f'' cfg i = Inr (FSingle w)
           \<and> uint w = be_value [cfg ! nat (i + 3), cfg ! nat (i + 2), cfg ! nat (i + 1), cfg ! nat i]"
proof -
  from assms have i0: "0 \<le> i" "i < int (length cfg)"
    and i1: "0 \<le> i + 1" "i + 1 < int (length cfg)"
    and i2: "0 \<le> i + 2" "i + 2 < int (length cfg)"
    and i3: "0 \<le> i + 3" "i + 3 < int (length cfg)"
    by simp_all
  note c0 = chr_cfg_byte [OF i0 assms(3)]
  note c1 = chr_cfg_byte [OF i1 assms(3)]
  note c2 = chr_cfg_byte [OF i2 assms(3)]
  note c3 = chr_cfg_byte [OF i3 assms(3)]
  define b0 where "b0 = cfg ! nat i"
  define b1 where "b1 = cfg ! nat (i + 1)"
  define b2 where "b2 = cfg ! nat (i + 2)"
  define b3 where "b3 = cfg ! nat (i + 3)"
  note bs = b0_def [symmetric] b1_def [symmetric] b2_def [symmetric] b3_def [symmetric]
  from c0 c1 c2 c3 have r: "0 \<le> b0" "b0 < 256" "0 \<le> b1" "b1 < 256" "0 \<le> b2" "b2 < 256"
      "0 \<le> b3" "b3 < 256"
    unfolding bs by simp_all
  from c0 c1 c2 c3
  have be: "cal_uSv_at ''>f'' cfg i
      = Inr (FSingle (word_of_int (b0 * 16777216 + b1 * 65536 + b2 * 256 + b3)))"
    and le: "cal_uSv_at ''<f'' cfg i
      = Inr (FSingle (word_of_int (b3 * 16777216 + b2 * 65536 + b1 * 256 + b0)))"
    unfolding bs by (simp_all add: cal_uSv_at_def andthen_def unpack_f_def)
  from four_bytes_range [OF r]
  have "uint (word_of_int (b0 * 16777216 + b1 * 65536 + b2 * 256 + b3) :: 32 word)
        = be_value [b0, b1, b2, b3]"
    by (simp only: be_value_4)
  with be show "\<exists>w. cal_uSv_at ''>f'' cfg i = Inr (FSingle w)
           \<and> uint w = be_value [cfg ! nat i, cfg ! nat (i + 1), cfg ! nat (i + 2), cfg ! nat (i + 3)]"
    unfolding bs by blast
  from four_bytes_range [OF r(7,8) r(5,6) r(3,4) r(1,2)]
  have "uint (word_of_int (b3 * 16777216 + b2 * 65536 + b1 * 256 + b0) :: 32 word)
        = be_value [b3, b2, b1, b0]"
    by (simp only: be_value_4)
  with le show "\<exists>w. cal_uSv_at ''<f'' cfg i = Inr (FSingle w)
           \<and> uint w = be_value [cfg ! nat (i + 3), cfg ! nat (i + 2), cfg ! nat (i + 1), cfg ! nat i]"
    unfolding bs by blast
qed


text \<open>
  Claim C7. On every configuration of at least 26 bytes, ftextCalibration extracts
  three calibration points. Their CPM values are the bytes at offsets 8-9, 14-15
  and 20-21, most significant first. Their dose rates are the IEEE-754 singles
  whose 32 bits are the bytes at offsets 10-13, 16-19 and 22-25, most significant
  byte first exactly when \<^verbatim>\<open>gglobs.devicesIndex\<close> is 2 and least significant byte
  first for every other device. The text returned is what the formatting loop makes
  of these values: the three formatted lines when no CPM value is 0, and
  "ERROR in getting Calibration" when one is, since the quotient of the line then
  raises ZeroDivisionError.
\<close>

theorem C7_calibration:
  "26 \<le> length cfg \<and> (\<forall>c\<in>set cfg. 0 \<le> c \<and> c < 256) \<longrightarrow>
   (\<exists>w0 w1 w2.
      uint w0 = (if devicesIndex gg = 2
                 then be_value [cfg ! 10, cfg ! 11, cfg ! 12, cfg ! 13]
                 else be_value [cfg ! 13, cfg ! 12, cfg ! 11, cfg ! 10])
      \<and> uint w1 = (if devicesIndex gg = 2
                    then be_value [cfg ! 16, cfg ! 17, cfg ! 18, cfg ! 19]
                    else be_value [cfg ! 19, cfg ! 18, cfg ! 17, cfg ! 16])
      \<and> uint w2 = (if devicesIndex gg = 2
                    then be_value [cfg ! 22, cfg ! 23, cfg ! 24, cfg ! 25]
                    else be_value [cfg ! 25, cfg ! 24, cfg ! 23, cfg ! 22])
      \<and> ftextCalibration gg cfg =
          (case calibration_lines
                  [(be_value [cfg ! 8, cfg ! 9], FSingle w0),
                   (be_value [cfg ! 14, cfg ! 15], FSingle w1),
                   (be_value [cfg ! 20, cfg ! 21], FSingle w2)] of
             Inl e \<Rightarrow> Literal ''ERROR in getting Calibration''
           | Inr ls \<Rightarrow> Lines ls)
      \<and> ftextCalibration gg cfg =
          (if be_value [cfg ! 8, cfg ! 9] = 0 \<or> be_value [cfg ! 14, cfg ! 15] = 0
              \<or> be_value [cfg ! 20, cfg ! 21] = 0
           then Literal ''ERROR in getting Calibration''
           else Lines
             [(be_value [cfg ! 8, cfg ! 9], FSingle w0,
                 FDiv (FSingle w0) (FInt (be_value [cfg ! 8, cfg ! 9]))),
              (be_value [cfg ! 14, cfg ! 15], FSingle w1,
                 FDiv (FSingle w1) (FInt (be_value [cfg ! 14, cfg ! 15]))),
              (be_value [cfg ! 20, cfg ! 21], FSingle w2,
                 FDiv (FSingle w2) (FInt (be_value [cfg ! 20, cfg ! 21])))]))"
proof
  assume h: "26 \<le> length cfg \<and> (\<forall>c\<in>set cfg. 0 \<le> c \<and> c < 256)"
  then have bytes: "\<forall>c\<in>set cfg. 0 \<le> c \<and> c < 256" and len: "26 \<le> length cfg"
    by simp_all
  define cpm0 where "cpm0 = be_value [cfg ! 8, cfg ! 9]"
  define cpm1 where "cpm1 = be_value [cfg ! 14, cfg ! 15]"
  define cpm2 where "cpm2 = be_value [cfg ! 20, cfg ! 21]"
  from len have cpm: "cal_CPM_at cfg 8 = Inr cpm0" "cal_CPM_at cfg 14 = Inr cpm1"
      "cal_CPM_at cfg 20 = Inr cpm2"
    using cal_CPM_at_value [of 8 cfg, OF _ _ bytes] cal_CPM_at_value [of 14 cfg, OF _ _ bytes]
      cal_CPM_at_value [of 20 cfg, OF _ _ bytes]
    by (simp_all add: cpm0_def cpm1_def cpm2_def)
  define fString where "fString = (if devicesIndex gg = 2 then ''>f'' else ''<f'')"
  have usv: "\<exists>w. cal_uSv_at fString cfg i = Inr (FSingle w)
      \<and> uint w = (if devicesIndex gg = 2
                   then be_value [cfg ! nat i, cfg ! nat (i + 1), cfg ! nat (i + 2), cfg ! nat (i + 3)]
                   else be_value [cfg ! nat (i + 3), cfg ! nat (i + 2), cfg ! nat (i + 1), cfg ! nat i])"
    if "0 \<le> i" "i + 3 < int (length cfg)" for i
    using cal_uSv_at_value [OF that bytes] by (simp add: fString_def)
  from len usv [of 10] obtain w0 where w0: "cal_uSv_at fString cfg 10 = Inr (FSingle w0)"
    "uint w0 = (if devicesIndex gg = 2
                    then be_value [cfg ! 10, cfg ! 11, cfg ! 12, cfg ! 13]
                    else be_value [cfg ! 13, cfg ! 12, cfg ! 11, cfg ! 10])"
    by auto
  from len usv [of 16] obtain w1 where w1: "cal_uSv_at fString cfg 16 = Inr (FSingle w1)"
    "uint w1 = (if devicesIndex gg = 2
                    then be_value [cfg ! 16, cfg ! 17, cfg ! 18, cfg ! 19]
                    else be_value [cfg ! 19, cfg ! 18, cfg ! 17, cfg ! 16])"
    by auto
  from len usv [of 22] obtain w2 where w2: "cal_uSv_at fString cfg 22 = Inr (FSingle w2)"
    "uint w2 = (if devicesIndex gg = 2
                    then be_value [cfg ! 22, cfg ! 23, cfg ! 24, cfg ! 25]
                    else be_value [cfg ! 25, cfg ! 24, cfg ! 23, cfg ! 22])"
    by auto
  from cpm w0(1) w1(1) w2(1)
  have a: "ftextCalibration gg cfg =
          (case calibration_lines [(cpm0, FSingle w0), (cpm1, FSingle w1), (cpm2, FSingle w2)] of
             Inl e \<Rightarrow> Literal ''ERROR in getting Calibration''
           | Inr ls \<Rightarrow> Lines ls)"
    unfolding ftextCalibration_def fString_def [symmetric]
    by (simp add: andthen_def Let_def del: calibration_lines.simps)
  have b: "(case calibration_lines [(cpm0, FSingle w0), (cpm1, FSingle w1), (cpm2, FSingle w2)] of
             Inl e \<Rightarrow> Literal ''ERROR in getting Calibration''
           | Inr ls \<Rightarrow> Lines ls)
        = (if cpm0 = 0 \<or> cpm1 = 0 \<or> cpm2 = 0
           then Literal ''ERROR in getting Calibration''
           else Lines
             [(cpm0, FSingle w0, FDiv (FSingle w0) (FInt cpm0)),
              (cpm1, FSingle w1, FDiv (FSingle w1) (FInt cpm1)),
              (cpm2, FSingle w2, FDiv (FSingle w2) (FInt cpm2))])"
    by (simp add: andthen_def)
  from a b have c: "ftextCalibration gg cfg
        = (if cpm0 = 0 \<or> cpm1 = 0 \<or> cpm2 = 0
           then Literal ''ERROR in getting Calibration''
           else Lines
             [(cpm0, FSingle w0, FDiv (FSingle w0) (FInt cpm0)),
              (cpm1, FSingle w1, FDiv (FSingle w1) (FInt cpm1)),
              (cpm2, FSingle w2, FDiv (FSingle w2) (FInt cpm2))])"
    by (rule trans)
  from w0(2) w1(2) w2(2) a c
  show "\<exists>w0 w1 w2.
      uint w0 = (if devicesIndex gg = 2
                 then be_value [cfg ! 10, cfg ! 11, cfg ! 12, cfg ! 13]
                 else be_value [cfg ! 13, cfg ! 12, cfg ! 11, cfg ! 10])
      \<and> uint w1 = (if devicesIndex gg = 2
                    then be_value [cfg ! 16, cfg ! 17, cfg ! 18, cfg ! 19]
                    else be_value [cfg ! 19, cfg ! 18, cfg ! 17, cfg ! 16])
      \<and> uint w2 = (if devicesIndex gg = 2
                    then be_value [cfg ! 22, cfg ! 23, cfg ! 24, cfg ! 25]
                    else be_value [cfg ! 25, cfg ! 24, cfg ! 23, cfg ! 22])
      \<and> ftextCalibration gg cfg =
          (case calibration_lines
                  [(be_value [cfg ! 8, cfg ! 9], FSingle w0),
                   (be_value [cfg ! 14, cfg ! 15], FSingle w1),
                   (be_value [cfg ! 20, cfg ! 21], FSingle w2)] of
             Inl e \<Rightarrow> Literal ''ERROR in getting Calibration''
           | Inr ls \<Rightarrow> Lines ls)
      \<and> ftextCalibration gg cfg =
          (if be_value [cfg ! 8, cfg ! 9] = 0 \<or> be_value [cfg ! 14, cfg ! 15] = 0
              \<or> be_value [cfg ! 20, cfg ! 21] = 0
           then Literal ''ERROR in getting Calibration''
           else Lines
             [(be_value [cfg ! 8, cfg ! 9], FSingle w0,
                 FDiv (FSingle w0) (FInt (be_value [cfg ! 8, cfg ! 9]))),
              (be_value [cfg ! 14, cfg ! 15], FSingle w1,
                 FDiv (FSingle w1) (FInt (be_value [cfg ! 14, cfg ! 15]))),
              (be_value [cfg ! 20, cfg ! 21], FSingle w2,
                 FDiv (FSingle w2) (FInt (be_value [cfg ! 20, cfg ! 21])))])"
    unfolding cpm0_def cpm1_def cpm2_def by blast
qed

theorem C7_calibration_witness:
  "26 \<le> length cfg_300E \<and> list_all (\<lambda>c. 0 \<le> c \<and> c < 256) cfg_300E
   \<and> (\<exists>w0 w1 w2.
        ftextCalibration gglobs_300E cfg_300E = Lines
          [(60, FSingle w0, FDiv (FSingle w0) (FInt 60)),
           (240, FSingle w1, FDiv (FSingle w1) (FInt 240)),
           (1000, FSingle w2, FDiv (FSingle w2) (FInt 1000))]
        \<and> uint w0 = 1053273620 \<and> uint w1 = 1070050836 \<and> uint w2 = 1087373312)
   \<and> (\<exists>w0 w1 w2.
        ftextCalibration (gglobs_300E\<lparr>devicesIndex := 2\<rparr>) cfg_300E = Lines
          [(60, FSingle w0, FDiv (FSingle w0) (FInt 60)),
           (240, FSingle w1, FDiv (FSingle w1) (FInt 240)),
           (1000, FSingle w2, FDiv (FSingle w2) (FInt 1000))]
        \<and> uint w0 = 346998590)
   \<and> 26 \<le> length cfg_zero \<and> list_all (\<lambda>c. 0 \<le> c \<and> c < 256) cfg_zero
   \<and> ftextCalibration gglobs_300E cfg_zero = Literal ''ERROR in getting Calibration''"
proof -
  have z: "ftextCalibration gglobs_300E cfg_zero = Literal ''ERROR in getting Calibration''"
    using C7_calibration [of cfg_zero gglobs_300E]
    by (auto simp: cfg_zero_def be_value_def)
  have zl: "list_all (\<lambda>c. 0 \<le> c \<and> c < 256) cfg_zero"
    by (simp add: cfg_zero_def list_all_iff)
  have a: "\<exists>w0 w1 w2.
        ftextCalibration gglobs_300E cfg_300E = Lines
          [(60, FSingle w0, FDiv (FSingle w0) (FInt 60)),
           (240, FSingle w1, FDiv (FSingle w1) (FInt 240)),
           (1000, FSingle w2, FDiv (FSingle w2) (FInt 1000))]
        \<and> uint w0 = 1053273620 \<and> uint w1 = 1070050836 \<and> uint w2 = 1087373312"
    using C7_calibration [of cfg_300E gglobs_300E]
    by (simp add: cfg_300E_def gglobs_300E_def be_value_def) blast
  have b: "\<exists>w0 w1 w2.
        ftextCalibration (gglobs_300E\<lparr>devicesIndex := 2\<rparr>) cfg_300E = Lines
          [(60, FSingle w0, FDiv (FSingle w0) (FInt 60)),
           (240, FSingle w1, FDiv (FSingle w1) (FInt 240)),
           (1000, FSingle w2, FDiv (FSingle w2) (FInt 1000))]
        \<and> uint w0 = 346998590"
    using C7_calibration [of cfg_300E "gglobs_300E\<lparr>devicesIndex := 2\<rparr>"]
    by (simp add: cfg_300E_def gglobs_300E_def be_value_def) blast
  have al: "26 \<le> length cfg_300E" "list_all (\<lambda>c. 0 \<le> c \<and> c < 256) cfg_300E"
    by (simp_all add: cfg_300E_def)
  have zn: "26 \<le> length cfg_zero" by (simp add: cfg_zero_def)
  from al a b zn zl z show ?thesis by (intro conjI)
qed

section \<open>Writing the configuration\<close>

lemma responsive_step:
  assumes "responsive (Suc k) p"
  shows "\<exists>b p'. serialCOMM_port p frame 1 True = (p', Returned (PList [b], 0, ''''))
           \<and> sent p' = sent p @ [frame] \<and> responsive k p'"
proof -
  from assms have o: "is_open p" and w: "WriteFails \<notin> set (wscript p)"
    and l: "Suc k \<le> length (rscript p)" and a: "list_all answering (take (Suc k) (rscript p))"
    by (simp_all add: responsive_def)
  from l obtain e rs where rs: "rscript p = e # rs" by (cases "rscript p") auto
  with a have "answering e" and a': "list_all answering (take k rs)" by simp_all
  then obtain c cs where e: "e = Delivers (c # cs)" by (cases e rule: answering.cases) auto
  from w have w1: "take 1 (wscript p) \<noteq> [WriteFails]" by (cases "wscript p") auto
  from w have w2: "WriteFails \<notin> set (tl (wscript p))" by (cases "wscript p") auto
  define p' where "p' = p\<lparr>wscript := tl (wscript p), rscript := rs, sent := sent p @ [frame]\<rparr>"
  from rs e have "rscript p = Delivers (c # cs) # rs" by simp
  from full_first_read [OF o w1 this, of 1 frame True]
  have "serialCOMM_port p frame 1 True = (p', Returned (PList [ord c], 0, ''''))"
    by (simp add: p'_def byteformat_rec_def)
  moreover have "sent p' = sent p @ [frame]" by (simp add: p'_def)
  moreover from o w2 l rs a' have "responsive k p'" by (simp add: p'_def responsive_def)
  ultimately show ?thesis by blast
qed

lemma responsive_step_store:
  assumes "responsive (Suc k) (st h)"
  shows "\<exists>b st'. serialCOMM st (Some h) frame 1 True = (st', Returned (PList [b], 0, ''''))
           \<and> sent (st' h) = sent (st h) @ [frame] \<and> responsive k (st' h)"
proof -
  from responsive_step [OF assms, of frame] obtain b p'
    where "serialCOMM_port (st h) frame 1 True = (p', Returned (PList [b], 0, ''''))"
      "sent p' = sent (st h) @ [frame]" "responsive k p'" by blast
  then have "serialCOMM st (Some h) frame 1 True = (st(h := p'), Returned (PList [b], 0, ''''))
      \<and> sent ((st(h := p')) h) = sent (st h) @ [frame] \<and> responsive k ((st(h := p')) h)"
    by (simp add: serialCOMM_def)
  then show ?thesis by blast
qed

lemma writeConfigData_loop_sent:
  assumes "responsive (length ics + m) (st h)"
    and "\<forall>ic\<in>set ics. 0 \<le> fst ic \<and> fst ic < 256 \<and> 0 \<le> snd ic \<and> snd ic < 256"
  shows "\<exists>st'. writeConfigData_loop st (Some h) ics = (st', None)
           \<and> sent (st' h) = sent (st h) @ map WCFG ics \<and> responsive m (st' h)"
  using assms
proof (induction ics arbitrary: st)
  case Nil
  then show ?case by simp
next
  case (Cons ic ics)
  obtain i c where ic: "ic = (i, c)" by (cases ic) auto
  from Cons.prems(2) ic have r: "0 \<le> i" "i < 256" "0 \<le> c" "c < 256" by simp_all
  from Cons.prems(1) have "responsive (Suc (length ics + m)) (st h)" by simp
  from responsive_step_store [where st = st and h = h and k = "length ics + m"
      and frame = "''<WCFG'' @ [char_of i] @ [char_of c] @ ''>>''", OF this]
  obtain b st1 where s: "serialCOMM st (Some h) (''<WCFG'' @ [char_of i] @ [char_of c] @ ''>>'') 1 True
        = (st1, Returned (PList [b], 0, ''''))"
      "sent (st1 h) = sent (st h) @ [''<WCFG'' @ [char_of i] @ [char_of c] @ ''>>'']"
      "responsive (length ics + m) (st1 h)" by blast
  from Cons.prems(2) have "\<forall>ic\<in>set ics. 0 \<le> fst ic \<and> fst ic < 256 \<and> 0 \<le> snd ic \<and> snd ic < 256"
    by simp
  from Cons.IH [of st1, OF s(3) this] obtain st' where
    l: "writeConfigData_loop st1 (Some h) ics = (st', None)"
      "sent (st' h) = sent (st1 h) @ map WCFG ics" "responsive m (st' h)" by blast
  from r s(1) l(1) have "writeConfigData_loop st (Some h) (ic # ics) = (st', None)"
    by (simp add: ic chr_def)
  moreover from s(2) l(2) have "sent (st' h) = sent (st h) @ map WCFG (ic # ics)"
    by (simp add: ic WCFG_def)
  ultimately show ?case using l(3) by blast
qed


lemma responsive_mono: "responsive k p \<Longrightarrow> j \<le> k \<Longrightarrow> responsive j p"
proof -
  assume r: "responsive k p" and jk: "j \<le> k"
  then have "list_all answering (take k (rscript p))" by (simp add: responsive_def)
  then have "\<forall>e\<in>set (take k (rscript p)). answering e" by (simp add: list_all_iff)
  moreover from jk have "set (take j (rscript p)) \<subseteq> set (take k (rscript p))"
    by (rule set_take_subset_set_take)
  ultimately have "list_all answering (take j (rscript p))" by (auto simp: list_all_iff)
  with r jk show ?thesis by (simp add: responsive_def)
qed

lemma remove_trailing_split: "\<exists>k. xs = remove_trailing xs v @ replicate k v"
proof -
  let ?P = "\<lambda>x. x = v"
  have "rev (dropWhile ?P (rev xs)) @ rev (takeWhile ?P (rev xs))
        = rev (takeWhile ?P (rev xs) @ dropWhile ?P (rev xs))"
    by (simp only: rev_append)
  also have "\<dots> = rev (rev xs)" by (simp only: takeWhile_dropWhile_id)
  also have "\<dots> = xs" by (rule rev_rev_ident)
  finally have x: "xs = remove_trailing xs v @ rev (takeWhile ?P (rev xs))"
    by (simp only: remove_trailing_def)
  have "\<forall>y\<in>set (rev (takeWhile ?P (rev xs))). y = v" by (auto dest: set_takeWhileD)
  then have "replicate (length (rev (takeWhile ?P (rev xs)))) v = rev (takeWhile ?P (rev xs))"
    by (rule replicate_length_same)
  with x have "xs = remove_trailing xs v @ replicate (length (rev (takeWhile ?P (rev xs)))) v"
    by simp
  then show ?thesis ..
qed

lemma remove_trailing_last: "remove_trailing xs v = [] \<or> last (remove_trailing xs v) \<noteq> v"
proof (cases "dropWhile (\<lambda>x. x = v) (rev xs)")
  case Nil
  then show ?thesis by (simp add: remove_trailing_def)
next
  case (Cons y ys)
  then have "\<not> (hd (dropWhile (\<lambda>x. x = v) (rev xs)) = v)"
    using hd_dropWhile [of "\<lambda>x. x = v" "rev xs"] by simp
  with Cons show ?thesis by (simp add: remove_trailing_def)
qed

lemma remove_trailing_nth:
  "i < length (remove_trailing xs v) \<Longrightarrow> remove_trailing xs v ! i = xs ! i"
proof -
  assume i: "i < length (remove_trailing xs v)"
  obtain k where "xs = remove_trailing xs v @ replicate k v" using remove_trailing_split by blast
  then have "xs ! i = (remove_trailing xs v @ replicate k v) ! i" by simp
  with i show ?thesis by (simp add: nth_append)
qed

lemma remove_trailing_length: "length (remove_trailing xs v) \<le> length xs"
  by (simp add: remove_trailing_def length_dropWhile_le [of _ "rev xs", simplified])

lemma enumerate_bytes:
  assumes "length xs \<le> 256" "\<forall>c\<in>set xs. 0 \<le> c \<and> c < 256"
  shows "\<forall>ic\<in>set (enumerate_list xs). 0 \<le> fst ic \<and> fst ic < 256 \<and> 0 \<le> snd ic \<and> snd ic < 256"
proof
  fix ic assume "ic \<in> set (enumerate_list xs)"
  then obtain n where n: "map int [0..<length xs] ! n = fst ic" "xs ! n = snd ic" "n < length xs"
    by (auto simp: enumerate_list_def in_set_zip)
  then have "fst ic = int n" by simp
  moreover from n have "snd ic \<in> set xs" by (metis nth_mem)
  ultimately show "0 \<le> fst ic \<and> fst ic < 256 \<and> 0 \<le> snd ic \<and> snd ic < 256"
    using assms n(3) by auto
qed

subsection \<open>A port on which no call raises\<close>

lemma Serial_write_calm:
  assumes "calm p"
  shows "\<exists>p1. Serial_write p frame = (p1, None) \<and> sent p1 = sent p @ [frame] \<and> calm p1"
proof (cases "wscript p")
  case Nil
  with assms show ?thesis by (simp add: Serial_write_def calm_def)
next
  case (Cons e ws)
  with assms have "e = WriteOk" by (cases e) (simp_all add: calm_def)
  with Cons assms show ?thesis by (simp add: Serial_write_def calm_def)
qed

lemma Serial_read_calm:
  assumes "calm p"
  shows "\<exists>p2 bs. Serial_read p n = (p2, Inr bs) \<and> sent p2 = sent p \<and> calm p2"
proof (cases "rscript p")
  case Nil
  with assms show ?thesis by (simp add: Serial_read_def calm_def)
next
  case (Cons e rs)
  with assms obtain bs where "e = Delivers bs" by (cases e) (simp_all add: calm_def)
  with Cons assms show ?thesis by (simp add: Serial_read_def calm_def)
qed

lemma retry_calm:
  "calm p \<Longrightarrow> count < countmax \<Longrightarrow> serialCOMM_retry p frame n msg count = (p', x) \<Longrightarrow>
   calm p' \<and> (\<exists>k. 1 \<le> k \<and> k \<le> countmax - count \<and> sent p' = sent p @ replicate k frame)
   \<and> (\<forall>e. x \<noteq> Propagates e)"
proof (induction p frame n msg count arbitrary: p' x rule: serialCOMM_retry.induct)
  case (1 p sendtxt returnlength errmessage count)
  from Serial_write_calm [OF "1.prems"(1), of sendtxt] obtain p1
    where W: "Serial_write p sendtxt = (p1, None)" and s1: "sent p1 = sent p @ [sendtxt]"
      and c1: "calm p1" by blast
  from Serial_read_calm [OF c1, of returnlength] obtain p2 bs
    where R: "Serial_read p1 returnlength = (p2, Inr bs)" and s2': "sent p2 = sent p1"
      and c2: "calm p2" by blast
  from s1 s2' have s2: "sent p2 = sent p @ replicate 1 sendtxt" by simp
  from "1.prems"(2) have one: "1 \<le> countmax - count" by simp
  note unfolded = "1.prems"(3) [unfolded serialCOMM_retry.simps [of p sendtxt returnlength errmessage count]]
  show ?case
  proof (cases "length bs = returnlength")
    case True
    with unfolded W R have "p' = p2"
      and "x = Break bs (errmessage @ ''; ok after '' @ str_nat count @ '' retry'')"
      by simp_all
    with c2 s2 one show ?thesis by blast
  next
    case ne: False
    show ?thesis
    proof (cases "countmax \<le> count + 1")
      case True
      with unfolded W R ne have "p' = p2"
        and "x = GiveUp (PNone, - 1,
               ''serialCOMM: ERROR communicating  - giving up - is the baudrate set correctly?'')"
        by simp_all
      with c2 s2 one show ?thesis by blast
    next
      case nc: False
      with unfolded W R ne
      have rec: "serialCOMM_retry p2 sendtxt returnlength errmessage (count + 1) = (p', x)"
        by simp
      from nc have lt: "count + 1 < countmax" by simp
      from "1.IH" [OF W [symmetric] refl R [symmetric] refl ne nc c2 lt rec]
      obtain k where k: "1 \<le> k" "k \<le> countmax - (count + 1)"
          "sent p' = sent p2 @ replicate k sendtxt"
        and c: "calm p'" and np: "\<forall>e. x \<noteq> Propagates e" by blast
      from k s2 have "sent p' = sent p @ replicate (Suc k) sendtxt"
        by (simp add: replicate_app_Cons_same)
      moreover from k lt have "1 \<le> Suc k" "Suc k \<le> countmax - count" by simp_all
      ultimately show ?thesis using c np by blast
    qed
  qed
qed

lemma port_calm:
  assumes "calm p" "serialCOMM_port p frame n bf = (p', r)"
  shows "calm p' \<and> (\<exists>k. 1 \<le> k \<and> k \<le> 5 \<and> sent p' = sent p @ replicate k frame)
         \<and> (\<exists>t. r = Returned t)"
proof -
  from Serial_write_calm [OF assms(1), of frame] obtain p1
    where W: "Serial_write p frame = (p1, None)" and s1: "sent p1 = sent p @ [frame]"
      and c1: "calm p1" by blast
  from Serial_read_calm [OF c1, of n] obtain p2 bs
    where R: "Serial_read p1 n = (p2, Inr bs)" and s2': "sent p2 = sent p1"
      and c2: "calm p2" by blast
  from s1 s2' have s2: "sent p2 = sent p @ replicate 1 frame" by simp
  note unfolded = assms(2) [unfolded serialCOMM_port_def]
  show ?thesis
  proof (cases "length bs < n")
    case False
    with unfolded W R have "p' = p2" "r = Returned (byteformat_rec bf bs, 0, '''')" by simp_all
    moreover have "(1::nat) \<le> 1 \<and> (1::nat) \<le> 5" by simp
    ultimately show ?thesis using c2 s2 by blast
  next
    case True
    obtain p3 x where L: "serialCOMM_retry p2 frame n
        (''serialCOMM: ERROR: Record too short: Received bytes:''
           @ str_nat (length bs) @ '' < requested:'' @ str_nat n) 1 = (p3, x)"
      by fastforce
    have "1 < countmax" by (simp add: countmax_def)
    from retry_calm [OF c2 this L] obtain k where k: "1 \<le> k" "k \<le> countmax - 1"
        "sent p3 = sent p2 @ replicate k frame"
      and c3: "calm p3" and np: "\<forall>e. x \<noteq> Propagates e" by blast
    from unfolded W R True L have p': "p' = p3" by (simp split: retry_exit.splits)
    from unfolded W R True L np have ret: "\<exists>t. r = Returned t"
      by (cases x) auto
    from k s2 have "sent p3 = sent p @ replicate (Suc k) frame"
      by (simp add: replicate_app_Cons_same)
    moreover from k have "1 \<le> Suc k" "Suc k \<le> 5" by (simp_all add: countmax_def)
    ultimately show ?thesis using p' c3 ret by blast
  qed
qed

lemma store_calm:
  assumes "calm (st h)" "serialCOMM st (Some h) frame n bf = (st', r)"
  shows "calm (st' h) \<and> (\<exists>k. 1 \<le> k \<and> k \<le> 5 \<and> sent (st' h) = sent (st h) @ replicate k frame)
         \<and> (\<exists>t. r = Returned t)"
proof -
  obtain p' r' where P: "serialCOMM_port (st h) frame n bf = (p', r')" by fastforce
  with assms(2) have "st' = st(h := p')" "r = r'" by (simp_all add: serialCOMM_def)
  with port_calm [OF assms(1) P] show ?thesis by simp
qed

subsection \<open>The commands a port receives\<close>

lemma repeated_Nil: "repeated [] fs = []"
  by (simp add: repeated_def)

lemma repeated_Cons: "repeated (k # ks) (f # fs) = replicate k f @ repeated ks fs"
  by (simp add: repeated_def)

lemma repeated_append:
  "length ks = length fs \<Longrightarrow> repeated (ks @ ks') (fs @ fs') = repeated ks fs @ repeated ks' fs'"
  by (simp add: repeated_def)

lemma repeated_zero: "repeated (replicate n 0) fs = []"
proof (induction n arbitrary: fs)
  case 0
  show ?case by (simp add: repeated_Nil)
next
  case (Suc n)
  show ?case
  proof (cases fs)
    case Nil
    then show ?thesis by (simp add: repeated_def)
  next
    case (Cons f fs')
    with Suc [of fs'] show ?thesis by (simp add: repeated_Cons)
  qed
qed

lemma serialCOMM_sent:
  assumes "serialCOMM st ser frame n bf = (st', r)"
  shows "\<exists>k\<le>5. sent (st' h) = sent (st h) @ replicate k frame"
proof (cases ser)
  case None
  with assms have "st' = st" by (simp add: serialCOMM_def)
  then have "sent (st' h) = sent (st h) @ replicate 0 frame" by simp
  then show ?thesis by blast
next
  case (Some h')
  obtain p' r' where P: "serialCOMM_port (st h') frame n bf = (p', r')" by fastforce
  with assms Some have st': "st' = st(h' := p')" by (simp add: serialCOMM_def)
  show ?thesis
  proof (cases "h = h'")
    case True
    with serialCOMM_port_sent [OF P] st' show ?thesis by simp
  next
    case False
    with st' have "sent (st' h) = sent (st h) @ replicate 0 frame" by simp
    then show ?thesis by blast
  qed
qed

lemma writeConfigData_loop_any:
  "writeConfigData_loop st ser ics = (st', r) \<Longrightarrow>
   \<exists>ks. length ks = length ics \<and> (\<forall>k\<in>set ks. k \<le> 5)
        \<and> sent (st' h) = sent (st h) @ repeated ks (map WCFG ics)"
proof (induction ics arbitrary: st)
  case Nil
  then have "st' = st" by simp
  then have "length ([]::nat list) = length ([]::(int \<times> int) list) \<and> (\<forall>k\<in>set ([]::nat list). k \<le> 5)
      \<and> sent (st' h) = sent (st h) @ repeated [] (map WCFG [])"
    by (simp add: repeated_Nil)
  then show ?case by blast
next
  case (Cons ic ics)
  obtain i c where ic: "ic = (i, c)" by (cases ic) auto
  let ?zs = "replicate (length ics) (0::nat)"
  have stop: "\<exists>ks. length ks = length (ic # ics) \<and> (\<forall>k\<in>set ks. k \<le> 5)
        \<and> sent (st' h) = sent (st h) @ repeated ks (map WCFG (ic # ics))"
    if "k \<le> 5" "sent (st' h) = sent (st h) @ replicate k (WCFG ic)" for k
  proof -
    from that have "length (k # ?zs) = length (ic # ics) \<and> (\<forall>j\<in>set (k # ?zs). j \<le> 5)
        \<and> sent (st' h) = sent (st h) @ repeated (k # ?zs) (map WCFG (ic # ics))"
      by (simp add: repeated_Cons repeated_zero)
    then show ?thesis by blast
  qed
  show ?case
  proof (cases "0 \<le> i \<and> i < 256 \<and> 0 \<le> c \<and> c < 256")
    case False
    with Cons.prems have "st' = st" by (auto simp: ic chr_def split: if_splits)
    then have "sent (st' h) = sent (st h) @ replicate 0 (WCFG ic)" by simp
    from stop [OF _ this] show ?thesis by simp
  next
    case True
    let ?frame = "''<WCFG'' @ [char_of i] @ [char_of c] @ ''>>''"
    have fr: "?frame = WCFG ic" by (simp add: WCFG_def ic)
    obtain st1 r1 where S: "serialCOMM st ser ?frame 1 True = (st1, r1)" by fastforce
    from serialCOMM_sent [OF S, of h] obtain k where
      k: "k \<le> 5" "sent (st1 h) = sent (st h) @ replicate k (WCFG ic)"
      unfolding fr by blast
    show ?thesis
    proof (cases r1)
      case (Raised e)
      with Cons.prems True S have "st' = st1" by (simp add: ic chr_def)
      with k stop show ?thesis by blast
    next
      case (Returned rec)
      with Cons.prems True S have "writeConfigData_loop st1 ser ics = (st', r)"
        by (simp add: ic chr_def)
      from Cons.IH [OF this] obtain ks where ks: "length ks = length ics" "\<forall>k\<in>set ks. k \<le> 5"
          "sent (st' h) = sent (st1 h) @ repeated ks (map WCFG ics)" by blast
      with k have "length (k # ks) = length (ic # ics) \<and> (\<forall>j\<in>set (k # ks). j \<le> 5)
        \<and> sent (st' h) = sent (st h) @ repeated (k # ks) (map WCFG (ic # ics))"
        by (simp add: repeated_Cons)
      then show ?thesis by blast
    qed
  qed
qed

lemma writeConfigData_loop_calm:
  assumes "calm (st h)"
    and "\<forall>ic\<in>set ics. 0 \<le> fst ic \<and> fst ic < 256 \<and> 0 \<le> snd ic \<and> snd ic < 256"
  shows "\<exists>st' ks. writeConfigData_loop st (Some h) ics = (st', None) \<and> calm (st' h)
           \<and> length ks = length ics \<and> (\<forall>k\<in>set ks. 1 \<le> k \<and> k \<le> 5)
           \<and> sent (st' h) = sent (st h) @ repeated ks (map WCFG ics)"
  using assms
proof (induction ics arbitrary: st)
  case Nil
  then have "writeConfigData_loop st (Some h) [] = (st, None) \<and> calm (st h)
           \<and> length ([]::nat list) = length ([]::(int \<times> int) list)
           \<and> (\<forall>k\<in>set ([]::nat list). 1 \<le> k \<and> k \<le> 5)
           \<and> sent (st h) = sent (st h) @ repeated [] (map WCFG [])"
    by (simp add: repeated_Nil)
  then show ?case by blast
next
  case (Cons ic ics)
  obtain i c where ic: "ic = (i, c)" by (cases ic) auto
  from Cons.prems(2) ic have r: "0 \<le> i" "i < 256" "0 \<le> c" "c < 256" by simp_all
  let ?frame = "''<WCFG'' @ [char_of i] @ [char_of c] @ ''>>''"
  have fr: "?frame = WCFG ic" by (simp add: WCFG_def ic)
  obtain st1 r1 where S: "serialCOMM st (Some h) ?frame 1 True = (st1, r1)" by fastforce
  from store_calm [OF Cons.prems(1) S] obtain k t where
    k: "1 \<le> k" "k \<le> 5" "sent (st1 h) = sent (st h) @ replicate k (WCFG ic)"
    and c1: "calm (st1 h)" and t: "r1 = Returned t"
    unfolding fr by blast
  from Cons.prems(2) have "\<forall>ic\<in>set ics. 0 \<le> fst ic \<and> fst ic < 256 \<and> 0 \<le> snd ic \<and> snd ic < 256"
    by simp
  from Cons.IH [of st1, OF c1 this] obtain st' ks where
    l: "writeConfigData_loop st1 (Some h) ics = (st', None)" "calm (st' h)"
      "length ks = length ics" "\<forall>k\<in>set ks. 1 \<le> k \<and> k \<le> 5"
      "sent (st' h) = sent (st1 h) @ repeated ks (map WCFG ics)" by blast
  from r S t l(1) have "writeConfigData_loop st (Some h) (ic # ics) = (st', None)"
    by (simp add: ic chr_def)
  moreover from k l have "length (k # ks) = length (ic # ics) \<and> (\<forall>j\<in>set (k # ks). 1 \<le> j \<and> j \<le> 5)
        \<and> sent (st' h) = sent (st h) @ repeated (k # ks) (map WCFG (ic # ics))"
    by (simp add: repeated_Cons)
  ultimately show ?case using l(2) by blast
qed

lemma remove_trailing_append_same:
  "remove_trailing (xs @ replicate k v) v = remove_trailing xs v"
proof -
  have "dropWhile (\<lambda>x. x = v) (replicate k v @ rev xs) = dropWhile (\<lambda>x. x = v) (rev xs)"
    by (rule dropWhile_append2) simp
  then show ?thesis by (simp add: remove_trailing_def)
qed

lemma cfg_erased_changed: "cfg_erased[1 := 9] = 255 # 9 # replicate 254 255"
proof -
  have "(256::nat) = Suc (Suc 254)" by simp
  then have "cfg_erased = 255 # 255 # replicate 254 255"
    unfolding cfg_erased_def by (simp only: replicate_Suc)
  then have "cfg_erased[1 := 9] = (255 # 255 # replicate 254 255)[1 := 9]"
    by (simp only:)
  also have "\<dots> = 255 # 9 # replicate 254 255" by simp
  finally show ?thesis .
qed

lemma erased_written: "remove_trailing (255 # 9 # replicate 254 255) 255 = [255, 9]"
proof -
  have "remove_trailing ([255, 9] @ replicate 254 255) 255 = remove_trailing [255, 9] 255"
    by (rule remove_trailing_append_same)
  also have "\<dots> = [255, 9]" by (simp add: remove_trailing_def)
  finally show ?thesis by simp
qed

lemma cfg_erased_written: "remove_trailing (cfg_erased[1 := 9]) 255 = [255, 9]"
  by (simp only: cfg_erased_changed erased_written)

lemma cfg_erased_setitem: "setitem cfg_erased 1 9 = Inr (255 # 9 # replicate 254 255)"
proof -
  have "length cfg_erased = 256" by (simp add: cfg_erased_def)
  then have "setitem cfg_erased 1 9 = Inr (cfg_erased[1 := 9])"
    by (simp add: setitem_def position_def)
  then show ?thesis by (simp only: cfg_erased_changed)
qed

lemma enumerate_two: "enumerate_list [255, 9 :: int] = [(0, 255), (1, 9)]"
  by (simp add: enumerate_list_def upt_rec)

lemma writeConfigData_any:
  assumes "setitem cfg cfgaddress val = Inr cfg1"
    and "commands = [''<ECFG>>''] @ map WCFG (enumerate_list (remove_trailing cfg1 255))
                      @ [''<CFGUPDATE>>'']"
  shows "\<exists>ks. length ks = length commands \<and> (\<forall>k\<in>set ks. k \<le> 5)
           \<and> sent (fst (writeConfigData gg st ser cfg cfgaddress val) h)
               = sent (st h) @ repeated ks commands"
proof -
  let ?ics = "enumerate_list (remove_trailing cfg1 255)"
  have combine: ?thesis
    if "k0 \<le> 5" "length ks1 = length ?ics" "\<forall>k\<in>set ks1. k \<le> 5" "k3 \<le> 5"
      "sent (fst (writeConfigData gg st ser cfg cfgaddress val) h)
        = sent (st h) @ replicate k0 ''<ECFG>>'' @ repeated ks1 (map WCFG ?ics)
            @ replicate k3 ''<CFGUPDATE>>''" for k0 ks1 k3
  proof -
    from that(2) have "repeated (ks1 @ [k3]) (map WCFG ?ics @ [''<CFGUPDATE>>''])
        = repeated ks1 (map WCFG ?ics) @ repeated [k3] [''<CFGUPDATE>>'']"
      by (simp add: repeated_append)
    then have "repeated (k0 # ks1 @ [k3]) commands
        = replicate k0 ''<ECFG>>'' @ repeated ks1 (map WCFG ?ics) @ replicate k3 ''<CFGUPDATE>>''"
      by (simp add: assms(2) repeated_Cons repeated_Nil)
    with that have "length (k0 # ks1 @ [k3]) = length commands
        \<and> (\<forall>k\<in>set (k0 # ks1 @ [k3]). k \<le> 5)
        \<and> sent (fst (writeConfigData gg st ser cfg cfgaddress val) h)
             = sent (st h) @ repeated (k0 # ks1 @ [k3]) commands"
      by (simp add: assms(2))
    then show ?thesis by blast
  qed
  let ?zs = "replicate (length ?ics) (0::nat)"
  obtain st1 r1 where E: "serialCOMM st ser ''<ECFG>>'' 1 True = (st1, r1)" by fastforce
  from serialCOMM_sent [OF E, of h] obtain k0 where
    k0: "k0 \<le> 5" "sent (st1 h) = sent (st h) @ replicate k0 ''<ECFG>>''" by blast
  show ?thesis
  proof (cases r1)
    case (Raised e)
    with E have "fst (writeConfigData gg st ser cfg cfgaddress val) = st1"
      by (simp add: writeConfigData_def)
    with k0 have "sent (fst (writeConfigData gg st ser cfg cfgaddress val) h)
        = sent (st h) @ replicate k0 ''<ECFG>>'' @ repeated ?zs (map WCFG ?ics)
            @ replicate 0 ''<CFGUPDATE>>''"
      by (simp add: repeated_zero)
    from combine [OF k0(1) _ _ _ this] show ?thesis by simp
  next
    case (Returned rec)
    obtain st2 r2 where L: "writeConfigData_loop st1 ser ?ics = (st2, r2)" by fastforce
    from writeConfigData_loop_any [OF L, of h] obtain ks1 where
      ks1: "length ks1 = length ?ics" "\<forall>k\<in>set ks1. k \<le> 5"
        "sent (st2 h) = sent (st1 h) @ repeated ks1 (map WCFG ?ics)" by blast
    show ?thesis
    proof (cases r2)
      case (Some e)
      with E Returned L assms(1) have "fst (writeConfigData gg st ser cfg cfgaddress val) = st2"
        by (simp add: writeConfigData_def)
      with k0 ks1 have "sent (fst (writeConfigData gg st ser cfg cfgaddress val) h)
          = sent (st h) @ replicate k0 ''<ECFG>>'' @ repeated ks1 (map WCFG ?ics)
              @ replicate 0 ''<CFGUPDATE>>''"
        by simp
      from combine [OF k0(1) ks1(1) ks1(2) _ this] show ?thesis by simp
    next
      case None
      obtain st3 r3 where U: "serialCOMM st2 (gglobs_ser gg) ''<CFGUPDATE>>'' 1 True = (st3, r3)"
        by fastforce
      from serialCOMM_sent [OF U, of h] obtain k3 where
        k3: "k3 \<le> 5" "sent (st3 h) = sent (st2 h) @ replicate k3 ''<CFGUPDATE>>''" by blast
      from E Returned L None U assms(1)
      have "fst (writeConfigData gg st ser cfg cfgaddress val) = st3"
        by (simp add: writeConfigData_def updateConfig_def)
      with k0 ks1 k3 have "sent (fst (writeConfigData gg st ser cfg cfgaddress val) h)
          = sent (st h) @ replicate k0 ''<ECFG>>'' @ repeated ks1 (map WCFG ?ics)
              @ replicate k3 ''<CFGUPDATE>>''"
        by simp
      from combine [OF k0(1) ks1(1) ks1(2) k3(1) this] show ?thesis .
    qed
  qed
qed

lemma writeConfigData_calm:
  assumes "setitem cfg cfgaddress val = Inr cfg1"
    and "commands = [''<ECFG>>''] @ map WCFG (enumerate_list (remove_trailing cfg1 255))
                      @ [''<CFGUPDATE>>'']"
    and "\<forall>ic\<in>set (enumerate_list (remove_trailing cfg1 255)).
           0 \<le> fst ic \<and> fst ic < 256 \<and> 0 \<le> snd ic \<and> snd ic < 256"
    and "gglobs_ser gg = Some h" "calm (st h)"
  shows "(\<exists>ks. length ks = length commands \<and> (\<forall>k\<in>set ks. 1 \<le> k \<and> k \<le> 5)
           \<and> sent (fst (writeConfigData gg st (Some h) cfg cfgaddress val) h)
               = sent (st h) @ repeated ks commands)
         \<and> (\<exists>t. snd (writeConfigData gg st (Some h) cfg cfgaddress val) = Returned t)"
proof -
  let ?ics = "enumerate_list (remove_trailing cfg1 255)"
  obtain st1 r1 where E: "serialCOMM st (Some h) ''<ECFG>>'' 1 True = (st1, r1)" by fastforce
  from store_calm [OF assms(5) E] obtain k0 t1 where
    k0: "1 \<le> k0" "k0 \<le> 5" "sent (st1 h) = sent (st h) @ replicate k0 ''<ECFG>>''"
    and c1: "calm (st1 h)" and t1: "r1 = Returned t1" by blast
  from writeConfigData_loop_calm [where st = st1 and h = h and ics = "?ics", OF c1 assms(3)] obtain st2 ks1 where
    L: "writeConfigData_loop st1 (Some h) ?ics = (st2, None)" and c2: "calm (st2 h)"
    and ks1: "length ks1 = length ?ics" "\<forall>k\<in>set ks1. 1 \<le> k \<and> k \<le> 5"
      "sent (st2 h) = sent (st1 h) @ repeated ks1 (map WCFG ?ics)" by blast
  obtain st3 r3 where U: "serialCOMM st2 (Some h) ''<CFGUPDATE>>'' 1 True = (st3, r3)"
    by fastforce
  from store_calm [OF c2 U] obtain k3 t3 where
    k3: "1 \<le> k3" "k3 \<le> 5" "sent (st3 h) = sent (st2 h) @ replicate k3 ''<CFGUPDATE>>''"
    and t3: "r3 = Returned t3" by blast
  from E t1 L U assms(1,4)
  have w: "writeConfigData gg st (Some h) cfg cfgaddress val = (st3, r3)"
    by (simp add: writeConfigData_def updateConfig_def)
  from ks1(1) have "repeated (ks1 @ [k3]) (map WCFG ?ics @ [''<CFGUPDATE>>''])
      = repeated ks1 (map WCFG ?ics) @ repeated [k3] [''<CFGUPDATE>>'']"
    by (simp add: repeated_append)
  then have "repeated (k0 # ks1 @ [k3]) commands
      = replicate k0 ''<ECFG>>'' @ repeated ks1 (map WCFG ?ics) @ replicate k3 ''<CFGUPDATE>>''"
    by (simp add: assms(2) repeated_Cons repeated_Nil)
  with w k0 ks1 k3 have "length (k0 # ks1 @ [k3]) = length commands
      \<and> (\<forall>k\<in>set (k0 # ks1 @ [k3]). 1 \<le> k \<and> k \<le> 5)
      \<and> sent (fst (writeConfigData gg st (Some h) cfg cfgaddress val) h)
           = sent (st h) @ repeated (k0 # ks1 @ [k3]) commands"
    by (simp add: assms(2))
  then have "\<exists>ks. length ks = length commands \<and> (\<forall>k\<in>set ks. 1 \<le> k \<and> k \<le> 5)
           \<and> sent (fst (writeConfigData gg st (Some h) cfg cfgaddress val) h)
               = sent (st h) @ repeated ks commands" by blast
  moreover from w t3 have "snd (writeConfigData gg st (Some h) cfg cfgaddress val) = Returned t3"
    by simp
  then have "\<exists>t. snd (writeConfigData gg st (Some h) cfg cfgaddress val) = Returned t" ..
  ultimately show ?thesis by blast
qed


text \<open>
  Claim C5, as stated, fails. serialCOMM answers an exception of the first write
  of a command by closing the port and returning error code -1, and
  writeConfigData drops every reply but the last: on a port whose third write
  raises, an erased block of 256 bytes with byte 1 set to 9 reaches the device as
  ECFG and the byte at offset 0 only; the changed byte is not written and no
  CFGUPDATE follows. CFGUPDATE is sent to \<^verbatim>\<open>gglobs.ser\<close>, not to \<^verbatim>\<open>ser\<close>: when the
  session has no Serial object, the port that was written gets no CFGUPDATE either.
\<close>

theorem C5_write_failure_ends_writes:
  "length cfg_erased = 256
   \<and> gglobs_ser gglobs_300E = Some 0
   \<and> sent (fst (writeConfigData gglobs_300E (\<lambda>h. write_fails_third) (Some 0) cfg_erased 1 9) 0)
     = [''<ECFG>>'', WCFG (0, 255)]
   \<and> snd (writeConfigData gglobs_300E (\<lambda>h. write_fails_third) (Some 0) cfg_erased 1 9)
     = Returned (PNone, - 1,
         ''serialCOMM: ERROR: WRITE failed in function serialCOMM. See log for details'')
   \<and> sent (fst (writeConfigData (gglobs_300E\<lparr>gglobs_ser := None\<rparr>) (\<lambda>h. device_AA) (Some 0)
                   cfg_erased 1 9) 0)
     = [''<ECFG>>'', WCFG (0, 255), WCFG (1, 9)]
   \<and> snd (writeConfigData (gglobs_300E\<lparr>gglobs_ser := None\<rparr>) (\<lambda>h. device_AA) (Some 0)
            cfg_erased 1 9)
     = Returned (PStr '''', - 1, ''Serial Port is closed'')"
proof -
  have d: "device_AA = \<lparr>is_open = True, wscript = [],
      rscript = [Delivers [CHR 0xAA], Delivers [CHR 0xAA], Delivers [CHR 0xAA],
                 Delivers [CHR 0xAA], Delivers [CHR 0xAA], Delivers [CHR 0xAA],
                 Delivers [CHR 0xAA], Delivers [CHR 0xAA]], sent = []\<rparr>"
    by (simp add: device_AA_def numeral_eq_Suc)
  have "length cfg_erased = 256" by (simp add: cfg_erased_def)
  moreover have "gglobs_ser gglobs_300E = Some 0" by (simp add: gglobs_300E_def)
  moreover have "sent (fst (writeConfigData gglobs_300E (\<lambda>h. write_fails_third) (Some 0) cfg_erased 1 9) 0)
     = [''<ECFG>>'', WCFG (0, 255)]
   \<and> snd (writeConfigData gglobs_300E (\<lambda>h. write_fails_third) (Some 0) cfg_erased 1 9)
     = Returned (PNone, - 1,
         ''serialCOMM: ERROR: WRITE failed in function serialCOMM. See log for details'')"
    by (simp add: writeConfigData_def updateConfig_def serialCOMM_def serialCOMM_port_def
        Serial_write_def Serial_read_def Serial_close_def cfg_erased_setitem
        erased_written enumerate_two chr_def WCFG_def gglobs_300E_def
        write_fails_third_def)
  moreover have "sent (fst (writeConfigData (gglobs_300E\<lparr>gglobs_ser := None\<rparr>) (\<lambda>h. device_AA) (Some 0)
                   cfg_erased 1 9) 0)
     = [''<ECFG>>'', WCFG (0, 255), WCFG (1, 9)]
   \<and> snd (writeConfigData (gglobs_300E\<lparr>gglobs_ser := None\<rparr>) (\<lambda>h. device_AA) (Some 0)
            cfg_erased 1 9)
     = Returned (PStr '''', - 1, ''Serial Port is closed'')"
    by (simp add: writeConfigData_def updateConfig_def serialCOMM_def serialCOMM_port_def
        Serial_write_def Serial_read_def Serial_close_def cfg_erased_setitem
        erased_written enumerate_two chr_def WCFG_def gglobs_300E_def d)
  ultimately show ?thesis by blast
qed

text \<open>
  Claim C5, amended. Take a configuration of at most 256 bytes, an address inside
  it and a new byte. \<open>written\<close> is the configuration with the byte at the address
  replaced and the trailing bytes 255 removed: the changed configuration is
  \<open>written\<close> followed by bytes 255 only, \<open>written\<close> does not end in 255, and every
  byte of \<open>written\<close> at an offset other than the address is the byte of the
  original configuration at that offset. The commands of the write are ECFG, one
  WCFG for each byte of \<open>written\<close> with its offset, in order, and CFGUPDATE.
  Whatever the ports do, and whichever Serial objects \<^verbatim>\<open>ser\<close> and \<^verbatim>\<open>gglobs.ser\<close>
  are, a port receives from writeConfigData these commands only, in this order,
  each at most five times. When \<^verbatim>\<open>ser\<close> is \<^verbatim>\<open>gglobs.ser\<close> and no call on its port
  raises, the port receives every command, each at least once, and
  writeConfigData returns. When moreover each command is answered at once, every
  command is received exactly once, CFGUPDATE last, and the reply of CFGUPDATE is
  returned.
\<close>

theorem C5_config_write:
  "length cfg \<le> 256 \<and> 0 \<le> cfgaddress \<and> cfgaddress < int (length cfg)
   \<and> (\<forall>c\<in>set cfg. 0 \<le> c \<and> c < 256) \<and> 0 \<le> val \<and> val < 256
   \<and> written = remove_trailing (cfg[nat cfgaddress := val]) 255
   \<and> commands = [''<ECFG>>''] @ map WCFG (enumerate_list written) @ [''<CFGUPDATE>>''] \<longrightarrow>
   (\<exists>k. cfg[nat cfgaddress := val] = written @ replicate k 255)
   \<and> (written = [] \<or> last written \<noteq> 255)
   \<and> (\<forall>i<length written. i \<noteq> nat cfgaddress \<longrightarrow> written ! i = cfg ! i)
   \<and> (\<forall>ic\<in>set (enumerate_list written). fst ic \<noteq> cfgaddress \<longrightarrow> snd ic = cfg ! nat (fst ic))
   \<and> (\<exists>ks. length ks = length commands \<and> (\<forall>k\<in>set ks. k \<le> 5)
         \<and> sent (fst (writeConfigData gg st ser cfg cfgaddress val) h)
             = sent (st h) @ repeated ks commands)
   \<and> (ser = Some h \<and> gglobs_ser gg = Some h \<and> calm (st h) \<longrightarrow>
        (\<exists>ks. length ks = length commands \<and> (\<forall>k\<in>set ks. 1 \<le> k \<and> k \<le> 5)
           \<and> sent (fst (writeConfigData gg st ser cfg cfgaddress val) h)
               = sent (st h) @ repeated ks commands)
        \<and> (\<exists>t. snd (writeConfigData gg st ser cfg cfgaddress val) = Returned t))
   \<and> (ser = Some h \<and> gglobs_ser gg = Some h \<and> responsive (length commands) (st h) \<longrightarrow>
        sent (fst (writeConfigData gg st ser cfg cfgaddress val) h) = sent (st h) @ commands
        \<and> (\<exists>b. snd (writeConfigData gg st ser cfg cfgaddress val)
                  = Returned (PList [b], 0, '''')))"
proof
  assume h: "length cfg \<le> 256 \<and> 0 \<le> cfgaddress \<and> cfgaddress < int (length cfg)
   \<and> (\<forall>c\<in>set cfg. 0 \<le> c \<and> c < 256) \<and> 0 \<le> val \<and> val < 256
   \<and> written = remove_trailing (cfg[nat cfgaddress := val]) 255
   \<and> commands = [''<ECFG>>''] @ map WCFG (enumerate_list written) @ [''<CFGUPDATE>>'']"
  define cfg1 where "cfg1 = cfg[nat cfgaddress := val]"
  from h have len: "length cfg \<le> 256"
    and addr: "0 \<le> cfgaddress" "cfgaddress < int (length cfg)"
    and bytes: "\<forall>c\<in>set cfg. 0 \<le> c \<and> c < 256" and v: "0 \<le> val" "val < 256"
    and written: "written = remove_trailing cfg1 255"
    and commands: "commands = [''<ECFG>>''] @ map WCFG (enumerate_list written) @ [''<CFGUPDATE>>'']"
    by (simp_all add: cfg1_def)
  \<comment> \<open>the byte list that is written back\<close>
  have split: "\<exists>k. cfg1 = written @ replicate k 255"
    unfolding written by (rule remove_trailing_split)
  have lst: "written = [] \<or> last written \<noteq> 255"
    unfolding written by (rule remove_trailing_last)
  have wlen: "length written \<le> length cfg"
    unfolding written using remove_trailing_length [of cfg1 255] by (simp add: cfg1_def)
  have nth1: "written ! i = cfg1 ! i" if "i < length written" for i
    using that unfolding written by (rule remove_trailing_nth)
  have frame: "written ! i = cfg ! i" if "i < length written" "i \<noteq> nat cfgaddress" for i
    using nth1 [OF that(1)] that(2) by (simp add: cfg1_def)
  have bytes1: "\<forall>c\<in>set cfg1. 0 \<le> c \<and> c < 256"
  proof
    fix c assume "c \<in> set cfg1"
    then have "c \<in> insert val (set cfg)"
      unfolding cfg1_def using set_update_subset_insert by fastforce
    with bytes v show "0 \<le> c \<and> c < 256" by auto
  qed
  have wbytes: "\<forall>c\<in>set written. 0 \<le> c \<and> c < 256"
  proof
    fix c assume "c \<in> set written"
    then obtain n where n: "n < length written" "written ! n = c" by (auto simp: in_set_conv_nth)
    with nth1 [of n] have "c = cfg1 ! n" by simp
    moreover from n wlen have "n < length cfg1" by (simp add: cfg1_def)
    ultimately have "c \<in> set cfg1" by simp
    with bytes1 show "0 \<le> c \<and> c < 256" by blast
  qed
  from wlen len have "length written \<le> 256" by simp
  from enumerate_bytes [OF this wbytes]
  have ebytes: "\<forall>ic\<in>set (enumerate_list written).
      0 \<le> fst ic \<and> fst ic < 256 \<and> 0 \<le> snd ic \<and> snd ic < 256" .
  have pairs: "\<forall>ic\<in>set (enumerate_list written). fst ic \<noteq> cfgaddress \<longrightarrow> snd ic = cfg ! nat (fst ic)"
  proof (intro ballI impI)
    fix ic assume "ic \<in> set (enumerate_list written)" and ne: "fst ic \<noteq> cfgaddress"
    then obtain n where n: "map int [0..<length written] ! n = fst ic" "written ! n = snd ic"
        "n < length written"
      by (auto simp: enumerate_list_def in_set_zip)
    then have f: "fst ic = int n" by simp
    with ne addr have "n \<noteq> nat cfgaddress" by auto
    from frame [OF n(3) this] n(2) f show "snd ic = cfg ! nat (fst ic)" by simp
  qed
  from frame have fr: "\<forall>i<length written. i \<noteq> nat cfgaddress \<longrightarrow> written ! i = cfg ! i"
    by blast
  from addr have set1: "setitem cfg cfgaddress val = Inr cfg1"
    by (simp add: setitem_def position_def cfg1_def)
  have commands1: "commands = [''<ECFG>>''] @ map WCFG (enumerate_list (remove_trailing cfg1 255))
      @ [''<CFGUPDATE>>'']"
    unfolding commands written ..
  have ebytes1: "\<forall>ic\<in>set (enumerate_list (remove_trailing cfg1 255)).
      0 \<le> fst ic \<and> fst ic < 256 \<and> 0 \<le> snd ic \<and> snd ic < 256"
    using ebytes unfolding written .
  \<comment> \<open>on every transport\<close>
  have any: "\<exists>ks. length ks = length commands \<and> (\<forall>k\<in>set ks. k \<le> 5)
         \<and> sent (fst (writeConfigData gg st ser cfg cfgaddress val) h)
             = sent (st h) @ repeated ks commands"
    by (rule writeConfigData_any [OF set1 commands1])
  \<comment> \<open>when no call on the port raises\<close>
  have calm: "(\<exists>ks. length ks = length commands \<and> (\<forall>k\<in>set ks. 1 \<le> k \<and> k \<le> 5)
           \<and> sent (fst (writeConfigData gg st ser cfg cfgaddress val) h)
               = sent (st h) @ repeated ks commands)
        \<and> (\<exists>t. snd (writeConfigData gg st ser cfg cfgaddress val) = Returned t)"
    if "ser = Some h \<and> gglobs_ser gg = Some h \<and> calm (st h)"
  proof -
    from that have s: "ser = Some h" and g: "gglobs_ser gg = Some h" and c: "calm (st h)"
      by simp_all
    show ?thesis unfolding s by (rule writeConfigData_calm [where st = st and h = h and gg = gg,
          OF set1 commands1 ebytes1 g c])
  qed
  \<comment> \<open>when every command is answered at once\<close>
  have resp: "sent (fst (writeConfigData gg st ser cfg cfgaddress val) h) = sent (st h) @ commands
        \<and> (\<exists>b. snd (writeConfigData gg st ser cfg cfgaddress val)
                  = Returned (PList [b], 0, ''''))"
    if "ser = Some h \<and> gglobs_ser gg = Some h \<and> responsive (length commands) (st h)"
  proof -
    from that have ser: "ser = Some h" and gser: "gglobs_ser gg = Some h"
      and r: "responsive (length commands) (st h)" by simp_all
    have "length commands = Suc (length (enumerate_list written) + 1)"
      by (simp add: commands)
    with r have "responsive (Suc (length (enumerate_list written) + 1)) (st h)" by simp
    from responsive_step_store [where st = st and h = h
        and k = "length (enumerate_list written) + 1" and frame = "''<ECFG>>''", OF this]
    obtain b1 st1 where e: "serialCOMM st (Some h) ''<ECFG>>'' 1 True
          = (st1, Returned (PList [b1], 0, ''''))"
        "sent (st1 h) = sent (st h) @ [''<ECFG>>'']"
        "responsive (length (enumerate_list written) + 1) (st1 h)"
      by blast
    from writeConfigData_loop_sent [of "enumerate_list written" 1 st1 h, OF e(3) ebytes]
    obtain st2 where l: "writeConfigData_loop st1 (Some h) (enumerate_list written) = (st2, None)"
        "sent (st2 h) = sent (st1 h) @ map WCFG (enumerate_list written)" "responsive 1 (st2 h)"
      by blast
    from l(3) have "responsive (Suc 0) (st2 h)" by simp
    from responsive_step_store [where st = st2 and h = h and k = 0
        and frame = "''<CFGUPDATE>>''", OF this]
    obtain b3 st3 where u: "serialCOMM st2 (Some h) ''<CFGUPDATE>>'' 1 True
          = (st3, Returned (PList [b3], 0, ''''))"
        "sent (st3 h) = sent (st2 h) @ [''<CFGUPDATE>>'']"
      by blast
    from ser gser e(1) set1 l(1) u(1)
    have w: "writeConfigData gg st ser cfg cfgaddress val = (st3, Returned (PList [b3], 0, ''''))"
      by (simp add: writeConfigData_def updateConfig_def written)
    from w e(2) l(2) u(2)
    have "sent (fst (writeConfigData gg st ser cfg cfgaddress val) h) = sent (st h) @ commands"
      by (simp add: commands)
    moreover from w have "\<exists>b. snd (writeConfigData gg st ser cfg cfgaddress val)
        = Returned (PList [b], 0, '''')" by simp
    ultimately show ?thesis ..
  qed
  from split have split': "\<exists>k. cfg[nat cfgaddress := val] = written @ replicate k 255"
    by (simp only: cfg1_def)
  from calm have calm':
    "ser = Some h \<and> gglobs_ser gg = Some h \<and> calm (st h) \<longrightarrow>
        (\<exists>ks. length ks = length commands \<and> (\<forall>k\<in>set ks. 1 \<le> k \<and> k \<le> 5)
           \<and> sent (fst (writeConfigData gg st ser cfg cfgaddress val) h)
               = sent (st h) @ repeated ks commands)
        \<and> (\<exists>t. snd (writeConfigData gg st ser cfg cfgaddress val) = Returned t)" ..
  from resp have resp':
    "ser = Some h \<and> gglobs_ser gg = Some h \<and> responsive (length commands) (st h) \<longrightarrow>
        sent (fst (writeConfigData gg st ser cfg cfgaddress val) h) = sent (st h) @ commands
        \<and> (\<exists>b. snd (writeConfigData gg st ser cfg cfgaddress val)
                  = Returned (PList [b], 0, ''''))" ..
  show "(\<exists>k. cfg[nat cfgaddress := val] = written @ replicate k 255)
   \<and> (written = [] \<or> last written \<noteq> 255)
   \<and> (\<forall>i<length written. i \<noteq> nat cfgaddress \<longrightarrow> written ! i = cfg ! i)
   \<and> (\<forall>ic\<in>set (enumerate_list written). fst ic \<noteq> cfgaddress \<longrightarrow> snd ic = cfg ! nat (fst ic))
   \<and> (\<exists>ks. length ks = length commands \<and> (\<forall>k\<in>set ks. k \<le> 5)
         \<and> sent (fst (writeConfigData gg st ser cfg cfgaddress val) h)
             = sent (st h) @ repeated ks commands)
   \<and> (ser = Some h \<and> gglobs_ser gg = Some h \<and> calm (st h) \<longrightarrow>
        (\<exists>ks. length ks = length commands \<and> (\<forall>k\<in>set ks. 1 \<le> k \<and> k \<le> 5)
           \<and> sent (fst (writeConfigData gg st ser cfg cfgaddress val) h)
               = sent (st h) @ repeated ks commands)
        \<and> (\<exists>t. snd (writeConfigData gg st ser cfg cfgaddress val) = Returned t))
   \<and> (ser = Some h \<and> gglobs_ser gg = Some h \<and> responsive (length commands) (st h) \<longrightarrow>
        sent (fst (writeConfigData gg st ser cfg cfgaddress val) h) = sent (st h) @ commands
        \<and> (\<exists>b. snd (writeConfigData gg st ser cfg cfgaddress val)
                  = Returned (PList [b], 0, '''')))"
    apply (intro conjI)
          apply (rule split')
         apply (rule lst)
        apply (rule fr)
       apply (rule pairs)
      apply (rule any)
     apply (rule calm')
    apply (rule resp')
    done
qed

theorem C5_config_write_witness:
  "length cfg_erased \<le> 256 \<and> list_all (\<lambda>c. 0 \<le> c \<and> c < 256) cfg_erased
   \<and> gglobs_ser gglobs_300E = Some 0 \<and> calm device_AA \<and> responsive 4 device_AA
   \<and> remove_trailing (cfg_erased[1 := 9]) 255 = [255, 9]
   \<and> sent (fst (writeConfigData gglobs_300E (\<lambda>h. device_AA) (Some 0) cfg_erased 1 9) 0)
      = [''<ECFG>>'', WCFG (0, 255), WCFG (1, 9), ''<CFGUPDATE>>'']"
proof -
  let ?commands = "[''<ECFG>>''] @ map WCFG (enumerate_list [255, 9]) @ [''<CFGUPDATE>>'']"
  have l: "length cfg_erased \<le> 256" by (simp add: cfg_erased_def)
  have b: "\<forall>c\<in>set cfg_erased. 0 \<le> c \<and> c < 256" by (simp add: cfg_erased_def)
  have g: "gglobs_ser gglobs_300E = Some 0" by (simp add: gglobs_300E_def)
  have c: "calm device_AA" by (simp add: calm_def device_AA_def)
  have r: "responsive 4 device_AA"
    by (simp add: responsive_def device_AA_def numeral_eq_Suc)
  have n: "length ?commands = 4" by (simp add: enumerate_two)
  from r have r': "responsive (length ?commands) device_AA" by (simp only: n)
  have t: "remove_trailing (cfg_erased[1 := 9]) 255 = [255, 9]" by (rule cfg_erased_written)
  then have t': "[255, 9] = remove_trailing (cfg_erased[nat 1 := 9]) 255" by simp
  have a: "(1::int) < int (length cfg_erased)" by (simp add: cfg_erased_def)
  from l a b t'
  have "length cfg_erased \<le> 256 \<and> (0::int) \<le> 1 \<and> 1 < int (length cfg_erased)
   \<and> (\<forall>c\<in>set cfg_erased. 0 \<le> c \<and> c < 256) \<and> (0::int) \<le> 9 \<and> (9::int) < 256
   \<and> [255, 9] = remove_trailing (cfg_erased[nat 1 := 9]) 255
   \<and> ?commands = [''<ECFG>>''] @ map WCFG (enumerate_list [255, 9]) @ [''<CFGUPDATE>>'']"
    by simp
  moreover from g c r'
  have "Some 0 = Some (0::nat) \<and> gglobs_ser gglobs_300E = Some 0
      \<and> responsive (length ?commands) device_AA" by simp
  ultimately
  have "sent (fst (writeConfigData gglobs_300E (\<lambda>h. device_AA) (Some 0) cfg_erased 1 9) 0)
      = sent device_AA @ ?commands"
    using C5_config_write [of cfg_erased 1 9 "[255, 9]" ?commands gglobs_300E
        "\<lambda>h. device_AA" "Some 0" 0]
    by blast
  then have "sent (fst (writeConfigData gglobs_300E (\<lambda>h. device_AA) (Some 0) cfg_erased 1 9) 0)
      = [''<ECFG>>'', WCFG (0, 255), WCFG (1, 9), ''<CFGUPDATE>>'']"
    by (simp add: enumerate_two device_AA_def)
  moreover from b have "list_all (\<lambda>c. 0 \<le> c \<and> c < 256) cfg_erased" by (simp add: list_all_iff)
  ultimately show ?thesis using l g c r t by blast
qed

end
